theory Spec2Isabelle
  imports Complex_Main "HOL-Library.Sublist" "HOL-Library.Multiset"
begin

section \<open>The trending fetcher: scoring, deduplication and ranking\<close>

text \<open>
  A shallow embedding of the core of \<^verbatim>\<open>fetcher/fetch.py\<close>: the traction score, the
  tolerant date parser, the deduplicator and the ranking and statistics step of
  \<^verbatim>\<open>main\<close>.

  Python floats are modelled as real numbers with exact arithmetic, so \<^verbatim>\<open>math.log1p\<close>
  is \<open>ln (1 + x)\<close> and \<^verbatim>\<open>math.exp\<close> is \<open>exp\<close>; rounding error, infinities and NaN
  are outside the model. Exceptions are values of the type \<open>error\<close>.
\<close>

subsection \<open>Exceptions and arithmetic helpers of the Python runtime\<close>

datatype error = ValueError | ZeroDivisionError | IndexError

text \<open>\<^verbatim>\<open>math.log1p(x)\<close> raises ValueError (math domain error) for \<open>x \<le> -1\<close>.\<close>

definition log1p :: "real \<Rightarrow> error + real" where
  "log1p x = (if x \<le> - 1 then Inl ValueError else Inr (ln (1 + x)))"

text \<open>Float division \<^verbatim>\<open>x / y\<close> raises ZeroDivisionError for a zero divisor.\<close>

definition py_div :: "real \<Rightarrow> real \<Rightarrow> error + real" where
  "py_div x y = (if y = 0 then Inl ZeroDivisionError else Inr (x / y))"

text \<open>
  \<^verbatim>\<open>round(x, ndigits)\<close> on a float rounds to the nearest multiple of
  \<open>10 ^ (- ndigits)\<close>, a tie going to the even neighbour.
\<close>

definition round_half_even :: "real \<Rightarrow> int" where
  "round_half_even x =
     (let f = \<lfloor>x\<rfloor>; d = x - of_int f
      in if d < 1 / 2 then f
         else if 1 / 2 < d then f + 1
         else if even f then f else f + 1)"

definition py_round :: "real \<Rightarrow> nat \<Rightarrow> real" where
  "py_round x ndigits = of_int (round_half_even (x * 10 ^ ndigits)) / 10 ^ ndigits"

subsection \<open>Configuration\<close>

definition MAX_TOTAL_ITEMS :: nat where
  "MAX_TOTAL_ITEMS = 200"

definition SOURCE_WEIGHTS :: "string \<rightharpoonup> real" where
  "SOURCE_WEIGHTS = map_of
     [(''hackernews'', 1.0),
      (''reddit'', 0.85),
      (''github'', 0.75),
      (''youtube'', 0.65),
      (''news'', 0.55)]"

text \<open>\<^verbatim>\<open>d.get(key, default)\<close> on a dictionary.\<close>

definition dict_get :: "('k \<rightharpoonup> 'v) \<Rightarrow> 'k \<Rightarrow> 'v \<Rightarrow> 'v" where
  "dict_get d k dflt = (case d k of None \<Rightarrow> dflt | Some v \<Rightarrow> v)"

subsection \<open>Traction scoring\<close>

text \<open>
  One cap-then-log normalisation, \<^verbatim>\<open>math.log1p(min(x, cap)) / math.log1p(cap)\<close>,
  evaluated left to right: the numerator's logarithm, the denominator's, the division.
\<close>

definition log_norm :: "real \<Rightarrow> real \<Rightarrow> error + real" where
  "log_norm x cap =
     (case log1p (min x cap) of
        Inl e \<Rightarrow> Inl e
      | Inr num \<Rightarrow>
          (case log1p cap of
             Inl e \<Rightarrow> Inl e
           | Inr den \<Rightarrow> py_div num den))"

definition compute_traction_score ::
  "string \<Rightarrow> real \<Rightarrow> real \<Rightarrow> real \<Rightarrow> real \<Rightarrow> real \<Rightarrow> error + real" where
  "compute_traction_score source engagement comments hours_old engagement_cap comments_cap =
     (case log_norm engagement engagement_cap of
        Inl e \<Rightarrow> Inl e
      | Inr eng_norm \<Rightarrow>
          (case log_norm comments comments_cap of
             Inl e \<Rightarrow> Inl e
           | Inr cmt_norm \<Rightarrow>
               (let half_life = 12.0;
                    recency = exp (- 0.693 * max hours_old 0 / half_life);
                    src_w = dict_get SOURCE_WEIGHTS source 0.5;
                    score = (eng_norm * 0.40 + cmt_norm * 0.20 + recency * 0.25
                             + src_w * 0.15) * 100
                in Inr (py_round score 2))))"

text \<open>The call with the default caps, \<^verbatim>\<open>engagement_cap=5000, comments_cap=500\<close>.\<close>

definition compute_traction_score_default ::
  "string \<Rightarrow> real \<Rightarrow> real \<Rightarrow> real \<Rightarrow> error + real" where
  "compute_traction_score_default source engagement comments hours_old =
     compute_traction_score source engagement comments hours_old 5000 500"

subsection \<open>Items\<close>

text \<open>
  An item is a Python dictionary. The core reads five of its keys, and reads them with
  \<^verbatim>\<open>item.get(key, default)\<close>, so each is optional here: \<open>None\<close> is an absent key.
  The other keys (type, title, summary, author, meta) are never read by the core; they
  live in the extension part of the record.
\<close>

record item =
  key_id :: "string option"
  key_source :: "string option"
  key_url :: "string option"
  key_date :: "string option"
  key_traction_score :: "real option"

text \<open>\<^verbatim>\<open>item.get(key, default)\<close> for one entry of an item.\<close>

definition item_get :: "'v option \<Rightarrow> 'v \<Rightarrow> 'v" where
  "item_get entry dflt = (case entry of None \<Rightarrow> dflt | Some v \<Rightarrow> v)"

subsection \<open>Date parsing\<close>

text \<open>
  The \<^verbatim>\<open>datetime\<close> module and the clock are outside the repository; they are a
  parameter of the model. \<open>strptime\<close> returns the parsed object or the exception it
  raised, \<open>now_iso\<close> is the reading of the clock (\<^verbatim>\<open>now_iso()\<close>), taken as fixed
  during one run, and \<open>hours_before_now\<close> is
  \<^verbatim>\<open>(datetime.now(timezone.utc) - dt).total_seconds() / 3600\<close>.
\<close>

record 'dt datetime_lib =
  strptime :: "string \<Rightarrow> string \<Rightarrow> error + 'dt"
  fromisoformat :: "string \<Rightarrow> error + 'dt"
  tzinfo_is_none :: "'dt \<Rightarrow> bool"
  replace_tzinfo_utc :: "'dt \<Rightarrow> 'dt"
  isoformat :: "'dt \<Rightarrow> string"
  hours_before_now :: "'dt \<Rightarrow> real"
  now_iso :: string

definition DATE_FORMATS :: "string list" where
  "DATE_FORMATS =
     [''%a, %d %b %Y %H:%M:%S %z'',
      ''%Y-%m-%dT%H:%M:%S%z'',
      ''%Y-%m-%dT%H:%M:%SZ'',
      ''%Y-%m-%dT%H:%M:%S.%f%z'',
      ''%Y-%m-%d %H:%M:%S'',
      ''%Y%m%d'']"

text \<open>
  \<^verbatim>\<open>str.strip()\<close> removes the whitespace at both ends. A character of a string is
  here one of the code points 0 to 255; among them \<^verbatim>\<open>str.isspace\<close> holds of the tab,
  the line feed, the vertical tab, the form feed, the carriage return, the four
  separators 0x1C to 0x1F, the blank, the next-line character 0x85 and the no-break
  space 0xA0.
\<close>

definition is_space :: "char \<Rightarrow> bool" where
  "is_space ch = (ch \<in> set [CHR 0x09, CHR 0x0A, CHR 0x0B, CHR 0x0C, CHR 0x0D,
                             CHR 0x1C, CHR 0x1D, CHR 0x1E, CHR 0x1F, CHR 0x20,
                             CHR 0x85, CHR 0xA0])"

definition strip :: "string \<Rightarrow> string" where
  "strip s = rev (dropWhile is_space (rev (dropWhile is_space s)))"

definition ensure_utc :: "'dt datetime_lib \<Rightarrow> 'dt \<Rightarrow> 'dt" where
  "ensure_utc lib dt = (if tzinfo_is_none lib dt then replace_tzinfo_utc lib dt else dt)"

text \<open>
  The loop over the formats: \<^verbatim>\<open>except ValueError: continue\<close> moves on to the next
  format, any other exception leaves the function, and the statement after the loop
  returns the clock.
\<close>

fun parse_date_loop :: "'dt datetime_lib \<Rightarrow> string \<Rightarrow> string list \<Rightarrow> error + string" where
  "parse_date_loop lib date_str [] = Inr (now_iso lib)"
| "parse_date_loop lib date_str (fmt # fmts) =
     (case strptime lib (strip date_str) fmt of
        Inl e \<Rightarrow> (if e = ValueError then parse_date_loop lib date_str fmts else Inl e)
      | Inr dt \<Rightarrow> Inr (isoformat lib (ensure_utc lib dt)))"

definition parse_date :: "'dt datetime_lib \<Rightarrow> string \<Rightarrow> error + string" where
  "parse_date lib date_str =
     (if date_str = [] then Inr (now_iso lib)
      else parse_date_loop lib date_str DATE_FORMATS)"

text \<open>\<^verbatim>\<open>hours_ago\<close>: every exception of the body is caught and gives 24.0.\<close>

definition hours_ago :: "'dt datetime_lib \<Rightarrow> string \<Rightarrow> real" where
  "hours_ago lib iso_date =
     (case fromisoformat lib iso_date of
        Inl e \<Rightarrow> 24.0
      | Inr dt \<Rightarrow> hours_before_now lib (ensure_utc lib dt))"

subsection \<open>The news feed normaliser\<close>

text \<open>
  The body of the loop of \<^verbatim>\<open>fetch_rss\<close> for one feed entry, as far as the five keys
  of \<open>item\<close> go. \<^verbatim>\<open>make_id\<close> is an MD5 digest, a parameter here; the keys the core
  does not read are the argument \<open>rest\<close>.
\<close>

record rss_entry =
  entry_link :: "string option"
  entry_published :: "string option"
  entry_updated :: "string option"

definition rss_item ::
  "'dt datetime_lib \<Rightarrow> (string \<Rightarrow> string \<Rightarrow> string) \<Rightarrow> rss_entry \<Rightarrow> 'a \<Rightarrow> error + 'a item_scheme" where
  "rss_item lib make_id entry rest =
     (let link = item_get (entry_link entry) [];
          published = item_get (entry_published entry) (item_get (entry_updated entry) [])
      in case parse_date lib published of
           Inl e \<Rightarrow> Inl e
         | Inr iso_date \<Rightarrow>
             (let age_h = hours_ago lib iso_date
              in case compute_traction_score_default ''news'' 0 0 age_h of
                   Inl e \<Rightarrow> Inl e
                 | Inr traction \<Rightarrow>
                     Inr \<lparr>key_id = Some (make_id ''news'' link),
                          key_source = Some ''news'',
                          key_url = Some link,
                          key_date = Some iso_date,
                          key_traction_score = Some traction,
                          \<dots> = rest\<rparr>))"

subsection \<open>Deduplication\<close>

text \<open>
  The loop of \<^verbatim>\<open>deduplicate\<close> with its three variables: the two seen-sets and the
  result list, to which a kept item is appended. The default of both \<^verbatim>\<open>get\<close> calls
  is the empty string.
\<close>

fun dedup_loop ::
  "'a item_scheme list \<Rightarrow> string set \<Rightarrow> string set \<Rightarrow> 'a item_scheme list \<Rightarrow> 'a item_scheme list" where
  "dedup_loop [] seen_urls seen_ids result = result"
| "dedup_loop (item # items) seen_urls seen_ids result =
     (let url = item_get (key_url item) [];
          item_id = item_get (key_id item) []
      in if url \<in> seen_urls \<or> item_id \<in> seen_ids
         then dedup_loop items seen_urls seen_ids result
         else dedup_loop items (insert url seen_urls) (insert item_id seen_ids)
                (result @ [item]))"

definition deduplicate :: "'a item_scheme list \<Rightarrow> 'a item_scheme list" where
  "deduplicate items = dedup_loop items {} {} []"

text \<open>The two lookups of \<^verbatim>\<open>deduplicate\<close>, named for the statements below.\<close>

abbreviation url_of :: "'a item_scheme \<Rightarrow> string" where
  "url_of item \<equiv> item_get (key_url item) []"

abbreviation id_of :: "'a item_scheme \<Rightarrow> string" where
  "id_of item \<equiv> item_get (key_id item) []"

subsection \<open>Ranking and statistics in \<^verbatim>\<open>main\<close>\<close>

text \<open>
  \<^verbatim>\<open>list.sort(key=..., reverse=True)\<close> is a stable sort in descending order of the
  key: the list is reversed, sorted stably in ascending order, and reversed again.
\<close>

definition sort_reverse :: "('a \<Rightarrow> real) \<Rightarrow> 'a list \<Rightarrow> 'a list" where
  "sort_reverse key xs = rev (sort_key key (rev xs))"

definition score_key :: "'a item_scheme \<Rightarrow> real" where
  "score_key x = item_get (key_traction_score x) 0"

text \<open>Lines 602 to 604 of \<^verbatim>\<open>main\<close>: deduplicate, sort, truncate.\<close>

definition main_rank :: "'a item_scheme list \<Rightarrow> 'a item_scheme list" where
  "main_rank all_items =
     take MAX_TOTAL_ITEMS (sort_reverse score_key (deduplicate all_items))"

text \<open>The part of the sorted list that the slice \<^verbatim>\<open>[:MAX_TOTAL_ITEMS]\<close> discards.\<close>

definition main_discarded :: "'a item_scheme list \<Rightarrow> 'a item_scheme list" where
  "main_discarded all_items =
     drop MAX_TOTAL_ITEMS (sort_reverse score_key (deduplicate all_items))"

text \<open>\<^verbatim>\<open>max(xs)\<close> raises ValueError on an empty list; \<^verbatim>\<open>xs[i]\<close> raises IndexError.\<close>

fun py_max :: "real list \<Rightarrow> error + real" where
  "py_max [] = Inl ValueError"
| "py_max (x # xs) = Inr (fold max xs x)"

definition py_index :: "'a list \<Rightarrow> nat \<Rightarrow> error + 'a" where
  "py_index xs i = (if i < length xs then Inr (xs ! i) else Inl IndexError)"

text \<open>\<^verbatim>\<open>sorted(scores)[int(len(scores) * p)]\<close>; \<^verbatim>\<open>int\<close> truncates a non-negative float.\<close>

definition percentile :: "real list \<Rightarrow> real \<Rightarrow> error + real" where
  "percentile scores p = py_index (sort scores) (nat \<lfloor>real (length scores) * p\<rfloor>)"

record traction_stats =
  key_max_score :: real
  key_p90_score :: real
  key_p75_score :: real

text \<open>Lines 611 to 614 of \<^verbatim>\<open>main\<close>, on the truncated list.\<close>

definition main_stats :: "'a item_scheme list \<Rightarrow> error + traction_stats" where
  "main_stats all_items =
     (let scores = map score_key all_items
      in case (if scores \<noteq> [] then py_max scores else Inr 0) of
           Inl e \<Rightarrow> Inl e
         | Inr max_score \<Rightarrow>
             (case (if scores \<noteq> [] then percentile scores 0.75 else Inr 0) of
                Inl e \<Rightarrow> Inl e
              | Inr p75 \<Rightarrow>
                  (case (if scores \<noteq> [] then percentile scores 0.90 else Inr 0) of
                     Inl e \<Rightarrow> Inl e
                   | Inr p90 \<Rightarrow>
                       Inr \<lparr>key_max_score = max_score, key_p90_score = p90,
                            key_p75_score = p75\<rparr>)))"

section \<open>Properties of the traction score\<close>

subsection \<open>Rounding\<close>

lemma round_half_even_upper: "of_int (round_half_even x) \<le> x + 1 / 2"
  unfolding round_half_even_def Let_def by (simp; linarith)

lemma round_half_even_lower: "x - 1 / 2 \<le> of_int (round_half_even x)"
  unfolding round_half_even_def Let_def by (simp; linarith)

lemma round_half_even_of_int: "round_half_even (of_int n) = n"
  unfolding round_half_even_def Let_def by simp

lemma round_half_even_mono:
  assumes "x \<le> y"
  shows "round_half_even x \<le> round_half_even y"
proof (rule ccontr)
  assume "\<not> round_half_even x \<le> round_half_even y"
  then have "round_half_even y + 1 \<le> round_half_even x" by simp
  then have "real_of_int (round_half_even y) + 1 \<le> of_int (round_half_even x)"
    by linarith
  moreover have "of_int (round_half_even x) \<le> x + 1 / 2"
    by (rule round_half_even_upper)
  moreover have "y - 1 / 2 \<le> of_int (round_half_even y)"
    by (rule round_half_even_lower)
  ultimately have "x = y" using assms by linarith
  with \<open>\<not> round_half_even x \<le> round_half_even y\<close> show False by simp
qed

lemma py_round_mono: "x \<le> y \<Longrightarrow> py_round x n \<le> py_round y n"
  unfolding py_round_def
  by (simp add: divide_right_mono round_half_even_mono)

lemma py_round_of_int: "py_round (of_int k) n = of_int k"
proof -
  have "real_of_int k * 10 ^ n = of_int (k * 10 ^ n)" by simp
  then have "round_half_even (real_of_int k * 10 ^ n) = k * 10 ^ n"
    using round_half_even_of_int by metis
  then show ?thesis unfolding py_round_def by simp
qed

lemma py_round_bounds:
  assumes "0 \<le> x" "x \<le> 100"
  shows "0 \<le> py_round x n" "py_round x n \<le> 100"
proof -
  show "0 \<le> py_round x n"
    using py_round_mono [of 0 x n] py_round_of_int [of 0 n] assms by simp
  show "py_round x n \<le> 100"
    using py_round_mono [of x 100 n] py_round_of_int [of 100 n] assms by simp
qed

subsection \<open>The four signals\<close>

lemma log_norm_valid:
  assumes "0 \<le> x" "0 < cap"
  shows "log_norm x cap = Inr (ln (1 + min x cap) / ln (1 + cap))"
  using assms by (simp add: log_norm_def log1p_def py_div_def)

lemma norm_ratio_bounds:
  fixes x cap :: real
  assumes "0 \<le> x" "0 < cap"
  shows "0 \<le> ln (1 + min x cap) / ln (1 + cap)" "ln (1 + min x cap) / ln (1 + cap) \<le> 1"
proof -
  have pos: "0 < ln (1 + cap)" using assms by simp
  have "0 \<le> ln (1 + min x cap)" using assms by simp
  with pos show "0 \<le> ln (1 + min x cap) / ln (1 + cap)" by simp
  have "ln (1 + min x cap) \<le> ln (1 + cap)" using assms by simp
  with pos show "ln (1 + min x cap) / ln (1 + cap) \<le> 1" by simp
qed

lemma norm_ratio_mono:
  fixes x y cap :: real
  assumes "0 \<le> x" "x \<le> y" "0 < cap"
  shows "ln (1 + min x cap) / ln (1 + cap) \<le> ln (1 + min y cap) / ln (1 + cap)"
proof -
  have pos: "0 < ln (1 + cap)" using assms by simp
  have "ln (1 + min x cap) \<le> ln (1 + min y cap)" using assms by simp
  with pos show ?thesis by (simp add: divide_right_mono)
qed

lemma recency_bounds:
  "0 < exp (- 0.693 * max h 0 / 12 :: real)" "exp (- 0.693 * max h 0 / 12 :: real) \<le> 1"
  by simp_all

lemma recency_mono:
  "a \<le> b \<Longrightarrow> exp (- 0.693 * max b 0 / 12 :: real) \<le> exp (- 0.693 * max a 0 / 12)"
  by simp

lemma source_weight_cases:
  "dict_get SOURCE_WEIGHTS s 0.5 \<in> {1.0, 0.85, 0.75, 0.65, 0.55, 0.5}"
  by (simp add: dict_get_def SOURCE_WEIGHTS_def)

lemma source_weight_bounds:
  "0 < dict_get SOURCE_WEIGHTS s 0.5" "dict_get SOURCE_WEIGHTS s 0.5 \<le> 1"
  using source_weight_cases [of s] by auto

lemma compute_traction_score_valid:
  assumes "0 \<le> e" "0 \<le> c" "0 < ecap" "0 < ccap"
  shows "compute_traction_score s e c h ecap ccap =
    Inr (py_round ((ln (1 + min e ecap) / ln (1 + ecap) * 0.40
                    + ln (1 + min c ccap) / ln (1 + ccap) * 0.20
                    + exp (- 0.693 * max h 0 / 12) * 0.25
                    + dict_get SOURCE_WEIGHTS s 0.5 * 0.15) * 100) 2)"
  using assms by (simp add: compute_traction_score_def log_norm_valid Let_def)

lemma weighted_sum_bounds:
  fixes a b r w :: real
  assumes "0 \<le> a" "a \<le> 1" "0 \<le> b" "b \<le> 1" "0 < r" "r \<le> 1" "0 < w" "w \<le> 1"
  shows "0 \<le> (a * 0.40 + b * 0.20 + r * 0.25 + w * 0.15) * 100"
    and "(a * 0.40 + b * 0.20 + r * 0.25 + w * 0.15) * 100 \<le> 100"
  using assms by simp_all

subsection \<open>Range and failure modes\<close>

text \<open>
  Claim C1. For every source string, every engagement and comments count that is not
  negative and every age, the call returns a score, and the score lies in the closed
  interval from 0 to 100. The caps are any positive numbers, the defaults 5000 and 500
  among them.
\<close>

theorem compute_traction_score_range:
  assumes "0 \<le> engagement" and "0 \<le> comments"
    and "0 < engagement_cap" and "0 < comments_cap"
  shows "\<exists>score.
    compute_traction_score source engagement comments hours_old engagement_cap comments_cap
      = Inr score \<and> 0 \<le> score \<and> score \<le> 100"
proof -
  let ?en = "ln (1 + min engagement engagement_cap) / ln (1 + engagement_cap)"
  let ?cn = "ln (1 + min comments comments_cap) / ln (1 + comments_cap)"
  let ?re = "exp (- 0.693 * max hours_old 0 / 12)"
  let ?w = "dict_get SOURCE_WEIGHTS source 0.5"
  let ?raw = "(?en * 0.40 + ?cn * 0.20 + ?re * 0.25 + ?w * 0.15) * 100"
  have en: "0 \<le> ?en" "?en \<le> 1"
    by (rule norm_ratio_bounds [OF assms(1) assms(3)])+
  have cn: "0 \<le> ?cn" "?cn \<le> 1"
    by (rule norm_ratio_bounds [OF assms(2) assms(4)])+
  have re: "0 < ?re" "?re \<le> 1"
    by (rule recency_bounds)+
  have w: "0 < ?w" "?w \<le> 1"
    by (rule source_weight_bounds)+
  have "0 \<le> ?raw" "?raw \<le> 100"
    by (rule weighted_sum_bounds [OF en cn re w])+
  then have "0 \<le> py_round ?raw 2" "py_round ?raw 2 \<le> 100"
    by (rule py_round_bounds)+
  then show ?thesis
    using compute_traction_score_valid [OF assms] by simp
qed

theorem compute_traction_score_range_witness:
  "(0::real) \<le> 120 \<and> (0::real) \<le> 30 \<and> (0::real) < 5000 \<and> (0::real) < 500 \<and>
   (\<exists>score. compute_traction_score ''reddit'' 120 30 7 5000 500 = Inr score
      \<and> 0 \<le> score \<and> score \<le> 100)"
  using compute_traction_score_range [of 120 30 5000 500 "''reddit''" 7] by simp

lemma log_norm_above_minus_one:
  assumes "- 1 < x" and "0 < cap"
  shows "log_norm x cap = Inr (ln (1 + min x cap) / ln (1 + cap))"
proof -
  have "- 1 < min x cap" using assms by simp
  then show ?thesis
    using assms by (simp add: log_norm_def log1p_def py_div_def)
qed

lemma log_norm_negative:
  assumes "- 1 < x" and "x < 0" and "0 < cap"
  shows "\<exists>n. log_norm x cap = Inr n \<and> n < 0"
proof -
  have m: "min x cap = x" using assms by simp
  have "ln (1 + x) < 0" using assms by simp
  moreover have "0 < ln (1 + cap)" using assms by simp
  ultimately have "ln (1 + x) / ln (1 + cap) < 0"
    by (simp add: divide_neg_pos)
  then show ?thesis
    using log_norm_above_minus_one [OF assms(1) assms(3)] m by simp
qed

lemma norm_ratio_mono_above_minus_one:
  fixes x y cap :: real
  assumes "- 1 < x" "x \<le> y" "0 < cap"
  shows "ln (1 + min x cap) / ln (1 + cap) \<le> ln (1 + min y cap) / ln (1 + cap)"
proof -
  have pos: "0 < ln (1 + cap)" using assms by simp
  have "ln (1 + min x cap) \<le> ln (1 + min y cap)" using assms by simp
  with pos show ?thesis by (simp add: divide_right_mono)
qed

lemma compute_traction_score_above_minus_one:
  assumes "- 1 < e" "- 1 < c" "0 < ecap" "0 < ccap"
  shows "compute_traction_score s e c h ecap ccap =
    Inr (py_round ((ln (1 + min e ecap) / ln (1 + ecap) * 0.40
                    + ln (1 + min c ccap) / ln (1 + ccap) * 0.20
                    + exp (- 0.693 * max h 0 / 12) * 0.25
                    + dict_get SOURCE_WEIGHTS s 0.5 * 0.15) * 100) 2)"
  using assms
  by (simp add: compute_traction_score_def log_norm_above_minus_one Let_def)

text \<open>
  Claim C2, as the code has it. With positive caps the call has no failure mode for
  counts greater than -1: it returns the score of the formula, into which a negative
  count enters as it is. A count is never replaced by 0: a count strictly between -1 and
  0 is log-normalised to a negative signal, which gives a score no greater than the score
  at 0, and a count of -1 or less raises ValueError in \<^verbatim>\<open>math.log1p\<close>. All of this
  holds for the engagement and for the comments count alike.
\<close>

theorem compute_traction_score_negative_counts:
  "(- 1 < engagement \<and> - 1 < comments \<and> 0 < engagement_cap \<and> 0 < comments_cap \<longrightarrow>
      compute_traction_score source engagement comments hours_old
        engagement_cap comments_cap
      = Inr (py_round
          ((ln (1 + min engagement engagement_cap) / ln (1 + engagement_cap) * 0.40
            + ln (1 + min comments comments_cap) / ln (1 + comments_cap) * 0.20
            + exp (- 0.693 * max hours_old 0 / 12) * 0.25
            + dict_get SOURCE_WEIGHTS source 0.5 * 0.15) * 100) 2))
   \<and> (engagement \<le> - 1 \<longrightarrow>
        compute_traction_score source engagement comments hours_old
          engagement_cap comments_cap = Inl ValueError)
   \<and> (- 1 < engagement \<and> 0 < engagement_cap \<and> comments \<le> - 1 \<longrightarrow>
        compute_traction_score source engagement comments hours_old
          engagement_cap comments_cap = Inl ValueError)
   \<and> (- 1 < engagement \<and> engagement < 0 \<and> 0 < engagement_cap \<longrightarrow>
        (\<exists>eng_norm. log_norm engagement engagement_cap = Inr eng_norm \<and> eng_norm < 0))
   \<and> (- 1 < comments \<and> comments < 0 \<and> 0 < comments_cap \<longrightarrow>
        (\<exists>cmt_norm. log_norm comments comments_cap = Inr cmt_norm \<and> cmt_norm < 0))
   \<and> (- 1 < engagement \<and> engagement < 0 \<and> - 1 < comments
        \<and> 0 < engagement_cap \<and> 0 < comments_cap \<longrightarrow>
        (\<exists>score score0.
           compute_traction_score source engagement comments hours_old
             engagement_cap comments_cap = Inr score
           \<and> compute_traction_score source 0 comments hours_old
               engagement_cap comments_cap = Inr score0
           \<and> score \<le> score0))
   \<and> (- 1 < engagement \<and> - 1 < comments \<and> comments < 0
        \<and> 0 < engagement_cap \<and> 0 < comments_cap \<longrightarrow>
        (\<exists>score score0.
           compute_traction_score source engagement comments hours_old
             engagement_cap comments_cap = Inr score
           \<and> compute_traction_score source engagement 0 hours_old
               engagement_cap comments_cap = Inr score0
           \<and> score \<le> score0))"
proof (intro conjI impI)
  assume "- 1 < engagement \<and> - 1 < comments \<and> 0 < engagement_cap \<and> 0 < comments_cap"
  then show "compute_traction_score source engagement comments hours_old
        engagement_cap comments_cap
      = Inr (py_round
          ((ln (1 + min engagement engagement_cap) / ln (1 + engagement_cap) * 0.40
            + ln (1 + min comments comments_cap) / ln (1 + comments_cap) * 0.20
            + exp (- 0.693 * max hours_old 0 / 12) * 0.25
            + dict_get SOURCE_WEIGHTS source 0.5 * 0.15) * 100) 2)"
    by (intro compute_traction_score_above_minus_one) simp_all
next
  assume "engagement \<le> - 1"
  then have "min engagement engagement_cap \<le> - 1" by simp
  then have "log_norm engagement engagement_cap = Inl ValueError"
    by (simp add: log_norm_def log1p_def)
  then show "compute_traction_score source engagement comments hours_old
          engagement_cap comments_cap = Inl ValueError"
    by (simp add: compute_traction_score_def)
next
  assume a: "- 1 < engagement \<and> 0 < engagement_cap \<and> comments \<le> - 1"
  then have "min comments comments_cap \<le> - 1" by linarith
  then have "log_norm comments comments_cap = Inl ValueError"
    by (simp add: log_norm_def log1p_def)
  moreover have "log_norm engagement engagement_cap
      = Inr (ln (1 + min engagement engagement_cap) / ln (1 + engagement_cap))"
    using a by (intro log_norm_above_minus_one) simp_all
  ultimately show "compute_traction_score source engagement comments hours_old
          engagement_cap comments_cap = Inl ValueError"
    by (simp add: compute_traction_score_def)
next
  assume "- 1 < engagement \<and> engagement < 0 \<and> 0 < engagement_cap"
  then show "\<exists>eng_norm. log_norm engagement engagement_cap = Inr eng_norm \<and> eng_norm < 0"
    by (intro log_norm_negative) simp_all
next
  assume "- 1 < comments \<and> comments < 0 \<and> 0 < comments_cap"
  then show "\<exists>cmt_norm. log_norm comments comments_cap = Inr cmt_norm \<and> cmt_norm < 0"
    by (intro log_norm_negative) simp_all
next
  assume a: "- 1 < engagement \<and> engagement < 0 \<and> - 1 < comments
        \<and> 0 < engagement_cap \<and> 0 < comments_cap"
  let ?en = "\<lambda>x. ln (1 + min x engagement_cap) / ln (1 + engagement_cap)"
  let ?cn = "ln (1 + min comments comments_cap) / ln (1 + comments_cap)"
  let ?re = "exp (- 0.693 * max hours_old 0 / 12)"
  let ?w = "dict_get SOURCE_WEIGHTS source 0.5"
  let ?raw = "\<lambda>x. (?en x * 0.40 + ?cn * 0.20 + ?re * 0.25 + ?w * 0.15) * 100"
  have "?en engagement \<le> ?en 0"
    using a by (intro norm_ratio_mono_above_minus_one) simp_all
  then have "?raw engagement \<le> ?raw 0" by simp
  then have le: "py_round (?raw engagement) 2 \<le> py_round (?raw 0) 2"
    by (rule py_round_mono)
  have s: "compute_traction_score source engagement comments hours_old
      engagement_cap comments_cap = Inr (py_round (?raw engagement) 2)"
    using a by (intro compute_traction_score_above_minus_one) simp_all
  have s0: "compute_traction_score source 0 comments hours_old
      engagement_cap comments_cap = Inr (py_round (?raw 0) 2)"
    using a by (intro compute_traction_score_above_minus_one) simp_all
  show "\<exists>score score0.
           compute_traction_score source engagement comments hours_old
             engagement_cap comments_cap = Inr score
           \<and> compute_traction_score source 0 comments hours_old
               engagement_cap comments_cap = Inr score0
           \<and> score \<le> score0"
    using le by (simp only: s s0) blast
next
  assume a: "- 1 < engagement \<and> - 1 < comments \<and> comments < 0
        \<and> 0 < engagement_cap \<and> 0 < comments_cap"
  let ?en = "ln (1 + min engagement engagement_cap) / ln (1 + engagement_cap)"
  let ?cn = "\<lambda>x. ln (1 + min x comments_cap) / ln (1 + comments_cap)"
  let ?re = "exp (- 0.693 * max hours_old 0 / 12)"
  let ?w = "dict_get SOURCE_WEIGHTS source 0.5"
  let ?raw = "\<lambda>x. (?en * 0.40 + ?cn x * 0.20 + ?re * 0.25 + ?w * 0.15) * 100"
  have "?cn comments \<le> ?cn 0"
    using a by (intro norm_ratio_mono_above_minus_one) simp_all
  then have "?raw comments \<le> ?raw 0" by simp
  then have le: "py_round (?raw comments) 2 \<le> py_round (?raw 0) 2"
    by (rule py_round_mono)
  have s: "compute_traction_score source engagement comments hours_old
      engagement_cap comments_cap = Inr (py_round (?raw comments) 2)"
    using a by (intro compute_traction_score_above_minus_one) simp_all
  have s0: "compute_traction_score source engagement 0 hours_old
      engagement_cap comments_cap = Inr (py_round (?raw 0) 2)"
    using a by (intro compute_traction_score_above_minus_one) simp_all
  show "\<exists>score score0.
           compute_traction_score source engagement comments hours_old
             engagement_cap comments_cap = Inr score
           \<and> compute_traction_score source engagement 0 hours_old
               engagement_cap comments_cap = Inr score0
           \<and> score \<le> score0"
    using le by (simp only: s s0) blast
qed

text \<open>
  With a cap of 1 the normalised signal of the count -0.5 is \<open>ln 0.5 / ln 2 = -1\<close>: an
  engagement of -0.5 brings the score of a fresh Hacker News item from 40 down to 0, and
  a comments count of -0.5 brings it down to 20.
\<close>

theorem compute_traction_score_negative_counts_witness:
  "compute_traction_score ''hackernews'' (- 0.5) 0 0 1 500 = Inr 0
   \<and> compute_traction_score ''hackernews'' 0 (- 0.5) 0 5000 1 = Inr 20
   \<and> compute_traction_score ''hackernews'' 0 0 0 1 500 = Inr 40
   \<and> compute_traction_score ''news'' (- 2) 2 1 5000 500 = Inl ValueError
   \<and> compute_traction_score ''news'' 3 (- 2) 1 5000 500 = Inl ValueError
   \<and> (\<exists>eng_norm. log_norm (- 0.5) 5000 = Inr eng_norm \<and> eng_norm < 0)
   \<and> (\<exists>cmt_norm. log_norm (- 0.5) 500 = Inr cmt_norm \<and> cmt_norm < 0)
   \<and> (\<exists>score score0.
        compute_traction_score ''news'' (- 0.5) 2 1 5000 500 = Inr score
        \<and> compute_traction_score ''news'' 0 2 1 5000 500 = Inr score0
        \<and> score \<le> score0)
   \<and> (\<exists>score score0.
        compute_traction_score ''news'' 3 (- 0.5) 1 5000 500 = Inr score
        \<and> compute_traction_score ''news'' 3 0 1 5000 500 = Inr score0
        \<and> score \<le> score0)"
proof -
  have half: "ln (1 / 2) / ln 2 = (- 1 :: real)"
    by (simp add: ln_div)
  have w: "dict_get SOURCE_WEIGHTS ''hackernews'' (1 / 2) = 1"
    by (simp add: dict_get_def SOURCE_WEIGHTS_def)
  have r0: "py_round 0 2 = 0"
    using py_round_of_int [of 0 2] by simp
  have r20: "py_round 20 2 = 20"
    using py_round_of_int [of 20 2] by simp
  have r40: "py_round 40 2 = 40"
    using py_round_of_int [of 40 2] by simp
  have a: "compute_traction_score ''hackernews'' (- 0.5) 0 0 1 500 = Inr 0"
    using compute_traction_score_negative_counts [of "- 0.5" 0 1 500 "''hackernews''" 0]
    by (simp add: half w r0)
  have b: "compute_traction_score ''hackernews'' 0 (- 0.5) 0 5000 1 = Inr 20"
    using compute_traction_score_negative_counts [of 0 "- 0.5" 5000 1 "''hackernews''" 0]
    by (simp add: half w r20)
  have c: "compute_traction_score ''hackernews'' 0 0 0 1 500 = Inr 40"
    using compute_traction_score_negative_counts [of 0 0 1 500 "''hackernews''" 0]
    by (simp add: w r40)
  have d: "compute_traction_score ''news'' (- 2) 2 1 5000 500 = Inl ValueError"
    using compute_traction_score_negative_counts [of "- 2" 2 5000 500 "''news''" 1]
    by simp
  have e: "compute_traction_score ''news'' 3 (- 2) 1 5000 500 = Inl ValueError"
    using compute_traction_score_negative_counts [of 3 "- 2" 5000 500 "''news''" 1]
    by simp
  have f: "\<exists>eng_norm. log_norm (- 0.5) 5000 = Inr eng_norm \<and> eng_norm < 0"
    using compute_traction_score_negative_counts [of "- 0.5" 2 5000 500 "''news''" 1]
    by simp
  have g: "\<exists>cmt_norm. log_norm (- 0.5) 500 = Inr cmt_norm \<and> cmt_norm < 0"
    using compute_traction_score_negative_counts [of 3 "- 0.5" 5000 500 "''news''" 1]
    by simp
  have h: "\<exists>score score0.
        compute_traction_score ''news'' (- 0.5) 2 1 5000 500 = Inr score
        \<and> compute_traction_score ''news'' 0 2 1 5000 500 = Inr score0
        \<and> score \<le> score0"
  proof -
    have "- 1 < (- 0.5 :: real) \<and> (- 0.5 :: real) < 0 \<and> - 1 < (2 :: real)
        \<and> (0 :: real) < 5000 \<and> (0 :: real) < 500"
      by simp
    then show ?thesis
      using compute_traction_score_negative_counts [of "- 0.5" 2 5000 500 "''news''" 1]
      by blast
  qed
  have i: "\<exists>score score0.
        compute_traction_score ''news'' 3 (- 0.5) 1 5000 500 = Inr score
        \<and> compute_traction_score ''news'' 3 0 1 5000 500 = Inr score0
        \<and> score \<le> score0"
  proof -
    have "- 1 < (3 :: real) \<and> - 1 < (- 0.5 :: real) \<and> (- 0.5 :: real) < 0
        \<and> (0 :: real) < 5000 \<and> (0 :: real) < 500"
      by simp
    then show ?thesis
      using compute_traction_score_negative_counts [of 3 "- 0.5" 5000 500 "''news''" 1]
      by blast
  qed
  from a b c d e f g h i show ?thesis by (intro conjI)
qed

text \<open>
  Claim C2, as the specification states it, fails: with an engagement of -1 the call
  raises ValueError, while with an engagement of 0 it returns 40.
\<close>

theorem compute_traction_score_negative_counterexample:
  "compute_traction_score ''hackernews'' (- 1) 0 0 5000 500 = Inl ValueError
   \<and> compute_traction_score ''hackernews'' 0 0 0 5000 500 = Inr 40"
proof
  show "compute_traction_score ''hackernews'' (- 1) 0 0 5000 500 = Inl ValueError"
    by (simp add: compute_traction_score_def log_norm_def log1p_def)
  have "py_round (of_int 40) 2 = of_int 40" by (rule py_round_of_int)
  then have r: "py_round 40 2 = 40" by simp
  show "compute_traction_score ''hackernews'' 0 0 0 5000 500 = Inr 40"
    by (simp add: compute_traction_score_valid dict_get_def SOURCE_WEIGHTS_def r)
qed

subsection \<open>Monotonicity and saturation\<close>

text \<open>
  Claim C6. With the other arguments held fixed, the score does not increase when the
  age grows, does not decrease when the engagement grows (from an engagement that is not
  negative), and does not decrease when the comments count grows (from a count that is
  not negative). Every call involved returns a score.
\<close>

theorem compute_traction_score_monotone:
  assumes "0 \<le> engagement" and "engagement \<le> engagement'"
    and "0 \<le> comments" and "comments \<le> comments'"
    and "hours_old \<le> hours_old'"
    and "0 < engagement_cap" and "0 < comments_cap"
  shows "\<exists>score older more_engagement more_comments.
    compute_traction_score source engagement comments hours_old
      engagement_cap comments_cap = Inr score
    \<and> compute_traction_score source engagement comments hours_old'
        engagement_cap comments_cap = Inr older
    \<and> compute_traction_score source engagement' comments hours_old
        engagement_cap comments_cap = Inr more_engagement
    \<and> compute_traction_score source engagement comments' hours_old
        engagement_cap comments_cap = Inr more_comments
    \<and> older \<le> score \<and> score \<le> more_engagement \<and> score \<le> more_comments"
proof -
  let ?en = "\<lambda>x. ln (1 + min x engagement_cap) / ln (1 + engagement_cap)"
  let ?cn = "\<lambda>x. ln (1 + min x comments_cap) / ln (1 + comments_cap)"
  let ?re = "\<lambda>h::real. exp (- 0.693 * max h 0 / 12)"
  let ?w = "dict_get SOURCE_WEIGHTS source 0.5"
  let ?raw = "\<lambda>e c h. (?en e * 0.40 + ?cn c * 0.20 + ?re h * 0.25 + ?w * 0.15) * 100"
  have e': "0 \<le> engagement'" and c': "0 \<le> comments'"
    using assms by linarith+
  have en: "?en engagement \<le> ?en engagement'"
    by (rule norm_ratio_mono [OF assms(1) assms(2) assms(6)])
  have cn: "?cn comments \<le> ?cn comments'"
    by (rule norm_ratio_mono [OF assms(3) assms(4) assms(7)])
  have re: "?re hours_old' \<le> ?re hours_old"
    by (rule recency_mono [OF assms(5)])
  have "?raw engagement comments hours_old' \<le> ?raw engagement comments hours_old"
    using re by simp
  then have 1: "py_round (?raw engagement comments hours_old') 2
      \<le> py_round (?raw engagement comments hours_old) 2"
    by (rule py_round_mono)
  have "?raw engagement comments hours_old \<le> ?raw engagement' comments hours_old"
    using en by simp
  then have 2: "py_round (?raw engagement comments hours_old) 2
      \<le> py_round (?raw engagement' comments hours_old) 2"
    by (rule py_round_mono)
  have "?raw engagement comments hours_old \<le> ?raw engagement comments' hours_old"
    using cn by simp
  then have 3: "py_round (?raw engagement comments hours_old) 2
      \<le> py_round (?raw engagement comments' hours_old) 2"
    by (rule py_round_mono)
  show ?thesis
    using 1 2 3
    by (simp only: compute_traction_score_valid [OF assms(1) assms(3) assms(6) assms(7)]
          compute_traction_score_valid [OF e' assms(3) assms(6) assms(7)]
          compute_traction_score_valid [OF assms(1) c' assms(6) assms(7)]) blast
qed

theorem compute_traction_score_monotone_witness:
  "(0::real) \<le> 10 \<and> (10::real) \<le> 200 \<and> (0::real) \<le> 4 \<and> (4::real) \<le> 9
   \<and> (0::real) \<le> 48 \<and> (0::real) < 5000 \<and> (0::real) < 500
   \<and> (\<exists>score older more_engagement more_comments.
    compute_traction_score ''hackernews'' 10 4 0 5000 500 = Inr score
    \<and> compute_traction_score ''hackernews'' 10 4 48 5000 500 = Inr older
    \<and> compute_traction_score ''hackernews'' 200 4 0 5000 500 = Inr more_engagement
    \<and> compute_traction_score ''hackernews'' 10 9 0 5000 500 = Inr more_comments
    \<and> older \<le> score \<and> score \<le> more_engagement \<and> score \<le> more_comments)"
  using compute_traction_score_monotone [of 10 200 4 9 0 48 5000 500 "''hackernews''"]
  by simp

text \<open>
  Claim C7. The score saturates at the caps: an engagement at or above the engagement
  cap gives the result of the cap itself, in particular ten times the cap does (for a
  cap that is not negative), and likewise a comments count at or above the comments cap.
  The equations are between the results of the calls, so they hold for a raised
  exception as well.
\<close>

theorem compute_traction_score_saturates:
  "(engagement_cap \<le> engagement \<longrightarrow>
      compute_traction_score source engagement comments hours_old
        engagement_cap comments_cap
      = compute_traction_score source engagement_cap comments hours_old
          engagement_cap comments_cap)
   \<and> (0 \<le> engagement_cap \<longrightarrow>
        compute_traction_score source engagement_cap comments 0
          engagement_cap comments_cap
        = compute_traction_score source (engagement_cap * 10) comments 0
            engagement_cap comments_cap)
   \<and> (comments_cap \<le> comments \<longrightarrow>
        compute_traction_score source engagement comments hours_old
          engagement_cap comments_cap
        = compute_traction_score source engagement comments_cap hours_old
            engagement_cap comments_cap)"
proof (intro conjI impI)
  assume "engagement_cap \<le> engagement"
  then have "min engagement engagement_cap = min engagement_cap engagement_cap"
    by simp
  then have "log_norm engagement engagement_cap = log_norm engagement_cap engagement_cap"
    by (simp only: log_norm_def)
  then show "compute_traction_score source engagement comments hours_old
        engagement_cap comments_cap
      = compute_traction_score source engagement_cap comments hours_old
          engagement_cap comments_cap"
    by (simp only: compute_traction_score_def)
next
  assume "0 \<le> engagement_cap"
  then have "min (engagement_cap * 10) engagement_cap = min engagement_cap engagement_cap"
    by simp
  then have "log_norm (engagement_cap * 10) engagement_cap
      = log_norm engagement_cap engagement_cap"
    by (simp only: log_norm_def)
  then show "compute_traction_score source engagement_cap comments 0
          engagement_cap comments_cap
        = compute_traction_score source (engagement_cap * 10) comments 0
            engagement_cap comments_cap"
    by (simp only: compute_traction_score_def)
next
  assume "comments_cap \<le> comments"
  then have "min comments comments_cap = min comments_cap comments_cap"
    by simp
  then have "log_norm comments comments_cap = log_norm comments_cap comments_cap"
    by (simp only: log_norm_def)
  then show "compute_traction_score source engagement comments hours_old
          engagement_cap comments_cap
        = compute_traction_score source engagement comments_cap hours_old
            engagement_cap comments_cap"
    by (simp only: compute_traction_score_def)
qed

theorem compute_traction_score_saturates_witness:
  "compute_traction_score ''github'' 12345 7 3 10000 2000
     = compute_traction_score ''github'' 10000 7 3 10000 2000
   \<and> compute_traction_score ''github'' 10000 7 0 10000 2000
       = compute_traction_score ''github'' (10000 * 10) 7 0 10000 2000
   \<and> compute_traction_score ''github'' 12345 2500 3 10000 2000
       = compute_traction_score ''github'' 12345 2000 3 10000 2000"
proof -
  have a: "compute_traction_score ''github'' 12345 7 3 10000 2000
     = compute_traction_score ''github'' 10000 7 3 10000 2000"
    using compute_traction_score_saturates [of 10000 12345 "''github''" 7 3 2000]
    by simp
  have b: "compute_traction_score ''github'' 10000 7 0 10000 2000
       = compute_traction_score ''github'' (10000 * 10) 7 0 10000 2000"
    using compute_traction_score_saturates [of 10000 12345 "''github''" 7 3 2000]
    by simp
  have c: "compute_traction_score ''github'' 12345 2500 3 10000 2000
       = compute_traction_score ''github'' 12345 2000 3 10000 2000"
  proof -
    have "(2000::real) \<le> 2500" by simp
    then show ?thesis
      using compute_traction_score_saturates [of 10000 12345 "''github''" 2500 3 2000]
      by blast
  qed
  from a b c show ?thesis by (intro conjI)
qed

subsection \<open>Sources outside the table\<close>

text \<open>
  Claim C9. A source string that is none of the five configured sources has no entry in
  the table of weights, so the lookup gives the default 0.5, and the call returns the
  score computed with that weight instead of failing (counts not negative, caps
  positive).
\<close>

theorem compute_traction_score_unknown_source:
  assumes "source \<notin> {''hackernews'', ''reddit'', ''github'', ''youtube'', ''news''}"
    and "0 \<le> engagement" and "0 \<le> comments"
    and "0 < engagement_cap" and "0 < comments_cap"
  shows "SOURCE_WEIGHTS source = None
    \<and> dict_get SOURCE_WEIGHTS source 0.5 = 0.5
    \<and> compute_traction_score source engagement comments hours_old
        engagement_cap comments_cap
      = Inr (py_round
          ((ln (1 + min engagement engagement_cap) / ln (1 + engagement_cap) * 0.40
            + ln (1 + min comments comments_cap) / ln (1 + comments_cap) * 0.20
            + exp (- 0.693 * max hours_old 0 / 12) * 0.25
            + 0.5 * 0.15) * 100) 2)"
proof -
  have none: "SOURCE_WEIGHTS source = None"
    using assms(1) by (simp add: SOURCE_WEIGHTS_def)
  then have dflt: "dict_get SOURCE_WEIGHTS source 0.5 = 0.5"
    by (simp add: dict_get_def)
  show ?thesis
    by (simp only: none dflt compute_traction_score_valid [OF assms(2-5)] simp_thms)
qed

theorem compute_traction_score_unknown_source_witness:
  "''lobsters'' \<notin> {''hackernews'', ''reddit'', ''github'', ''youtube'', ''news''}
   \<and> SOURCE_WEIGHTS ''lobsters'' = None
   \<and> dict_get SOURCE_WEIGHTS ''lobsters'' 0.5 = 0.5
   \<and> compute_traction_score ''lobsters'' 0 0 0 5000 500 = Inr 32.5"
proof -
  have "py_round (of_int 3250 / 100) 2 = 32.5"
    by (simp add: py_round_def round_half_even_def)
  then show ?thesis
    using compute_traction_score_unknown_source [of "''lobsters''" 0 0 5000 500 0]
    by simp
qed

section \<open>Properties of the deduplicator\<close>

subsection \<open>The loop\<close>

text \<open>The result list only grows, and what is appended is a subsequence of the input.\<close>

lemma dedup_loop_appends:
  "\<exists>kept. dedup_loop items seen_urls seen_ids result = result @ kept \<and> subseq kept items"
proof (induction items arbitrary: seen_urls seen_ids result)
  case Nil
  then show ?case by simp
next
  case (Cons item items)
  show ?case
  proof (cases "url_of item \<in> seen_urls \<or> id_of item \<in> seen_ids")
    case True
    obtain kept where
      "dedup_loop items seen_urls seen_ids result = result @ kept" "subseq kept items"
      using Cons.IH by blast
    with True show ?thesis
      by (auto simp: Let_def intro: subseq_Cons')
  next
    case False
    obtain kept where k:
      "dedup_loop items (insert (url_of item) seen_urls) (insert (id_of item) seen_ids)
         (result @ [item]) = (result @ [item]) @ kept" "subseq kept items"
      using Cons.IH by blast
    have "subseq (item # kept) (item # items)" using k(2) by simp
    with False k(1) show ?thesis
      by (auto simp: Let_def)
  qed
qed

text \<open>
  As long as the seen-sets hold at least the urls and ids of the result, the urls of the
  result stay distinct, and so do the ids.
\<close>

lemma dedup_loop_distinct_urls:
  assumes "url_of ` set result \<subseteq> seen_urls" and "distinct (map url_of result)"
  shows "distinct (map url_of (dedup_loop items seen_urls seen_ids result))"
  using assms
proof (induction items arbitrary: seen_urls seen_ids result)
  case Nil
  then show ?case by simp
next
  case (Cons item items)
  show ?case
  proof (cases "url_of item \<in> seen_urls \<or> id_of item \<in> seen_ids")
    case True
    then show ?thesis using Cons by (simp add: Let_def)
  next
    case False
    have "url_of ` set (result @ [item]) \<subseteq> insert (url_of item) seen_urls"
      using Cons.prems(1) by auto
    moreover have "distinct (map url_of (result @ [item]))"
      using Cons.prems False by auto
    ultimately have "distinct (map url_of (dedup_loop items (insert (url_of item) seen_urls)
        (insert (id_of item) seen_ids) (result @ [item])))"
      by (rule Cons.IH)
    with False show ?thesis by (simp add: Let_def)
  qed
qed

lemma dedup_loop_distinct_ids:
  assumes "id_of ` set result \<subseteq> seen_ids" and "distinct (map id_of result)"
  shows "distinct (map id_of (dedup_loop items seen_urls seen_ids result))"
  using assms
proof (induction items arbitrary: seen_urls seen_ids result)
  case Nil
  then show ?case by simp
next
  case (Cons item items)
  show ?case
  proof (cases "url_of item \<in> seen_urls \<or> id_of item \<in> seen_ids")
    case True
    then show ?thesis using Cons by (simp add: Let_def)
  next
    case False
    have "id_of ` set (result @ [item]) \<subseteq> insert (id_of item) seen_ids"
      using Cons.prems(1) by auto
    moreover have "distinct (map id_of (result @ [item]))"
      using Cons.prems False by auto
    ultimately have "distinct (map id_of (dedup_loop items (insert (url_of item) seen_urls)
        (insert (id_of item) seen_ids) (result @ [item])))"
      by (rule Cons.IH)
    with False show ?thesis by (simp add: Let_def)
  qed
qed

text \<open>
  The state of the loop started by \<^verbatim>\<open>deduplicate\<close> is determined by the result list:
  the seen-sets are exactly the urls and the ids of the items kept so far. Running the
  loop over \<open>xs @ ys\<close> is running it over \<open>xs\<close> and then over \<open>ys\<close>.
\<close>

lemma dedup_loop_append:
  "dedup_loop (xs @ ys) (url_of ` set result) (id_of ` set result) result =
     (let kept = dedup_loop xs (url_of ` set result) (id_of ` set result) result
      in dedup_loop ys (url_of ` set kept) (id_of ` set kept) kept)"
proof (induction xs arbitrary: result)
  case Nil
  then show ?case by simp
next
  case (Cons x xs)
  have ins: "insert (url_of x) (url_of ` set result) = url_of ` set (result @ [x])"
    "insert (id_of x) (id_of ` set result) = id_of ` set (result @ [x])"
    by auto
  show ?case
  proof (cases "url_of x \<in> url_of ` set result \<or> id_of x \<in> id_of ` set result")
    case True
    then show ?thesis using Cons.IH [of result] by (simp add: Let_def)
  next
    case False
    then show ?thesis
      using Cons.IH [of "result @ [x]"] by (simp only: append_Cons dedup_loop.simps Let_def ins if_False)
  qed
qed

lemma deduplicate_append:
  "deduplicate (xs @ ys) =
     dedup_loop ys (url_of ` set (deduplicate xs)) (id_of ` set (deduplicate xs))
       (deduplicate xs)"
  using dedup_loop_append [of xs ys "[]"] by (simp add: deduplicate_def Let_def)

lemma deduplicate_snoc:
  "deduplicate (pre @ [x]) =
     (if \<exists>y \<in> set (deduplicate pre). url_of y = url_of x \<or> id_of y = id_of x
      then deduplicate pre else deduplicate pre @ [x])"
  by (auto simp: deduplicate_append Let_def image_iff)

lemma deduplicate_prefix:
  "prefix (deduplicate xs) (deduplicate (xs @ ys))"
proof -
  obtain kept where "deduplicate (xs @ ys) = deduplicate xs @ kept"
    unfolding deduplicate_append using dedup_loop_appends by blast
  then show ?thesis by simp
qed

lemma deduplicate_subseq: "subseq (deduplicate items) items"
  using dedup_loop_appends [of items "{}" "{}" "[]"] by (auto simp: deduplicate_def)

lemma deduplicate_distinct_urls: "distinct (map url_of (deduplicate items))"
  unfolding deduplicate_def by (rule dedup_loop_distinct_urls) simp_all

lemma deduplicate_distinct_ids: "distinct (map id_of (deduplicate items))"
  unfolding deduplicate_def by (rule dedup_loop_distinct_ids) simp_all

subsection \<open>Uniqueness, order and which item wins\<close>

lemma distinct_map_filter_le_one:
  "distinct (map f xs) \<Longrightarrow> length (filter (\<lambda>x. f x = k) xs) \<le> 1"
proof (induction xs)
  case Nil
  then show ?case by simp
next
  case (Cons x xs)
  show ?case
  proof (cases "f x = k")
    case True
    then have "\<forall>y \<in> set xs. f y \<noteq> k" using Cons.prems by (auto simp: image_iff)
    then have "filter (\<lambda>x. f x = k) xs = []" by (simp add: filter_empty_conv)
    with True show ?thesis by simp
  next
    case False
    then show ?thesis using Cons by simp
  qed
qed

lemma short_list_with_member:
  assumes "length xs \<le> 1" and "x \<in> set xs"
  shows "xs = [x]"
  using assms by (cases xs) auto

text \<open>
  Claim C3, as the code has it. The output of \<^verbatim>\<open>deduplicate\<close> has no two items with
  the same url and no two items with the same id, and it is a subsequence of the input.
  An input item is kept exactly when neither its url nor its id is that of an item kept
  before it: for every split of the input into the items before \<open>x\<close>, the item \<open>x\<close> and
  the items after it, what is kept up to \<open>x\<close> is the start of the final output, and \<open>x\<close>
  is dropped if and only if an item kept from those before it has its url or its id.
\<close>

theorem deduplicate_unique_ordered:
  "distinct (map url_of (deduplicate items))
   \<and> distinct (map id_of (deduplicate items))
   \<and> subseq (deduplicate items) items
   \<and> (\<forall>pre x post. items = pre @ x # post \<longrightarrow>
        prefix (deduplicate (pre @ [x])) (deduplicate items)
        \<and> deduplicate (pre @ [x]) =
            (if \<exists>y \<in> set (deduplicate pre). url_of y = url_of x \<or> id_of y = id_of x
             then deduplicate pre else deduplicate pre @ [x]))"
proof (intro conjI allI impI)
  show "distinct (map url_of (deduplicate items))"
    by (rule deduplicate_distinct_urls)
  show "distinct (map id_of (deduplicate items))"
    by (rule deduplicate_distinct_ids)
  show "subseq (deduplicate items) items"
    by (rule deduplicate_subseq)
next
  fix pre x post
  assume "items = pre @ x # post"
  then have "items = (pre @ [x]) @ post" by simp
  then show "prefix (deduplicate (pre @ [x])) (deduplicate items)"
    by (simp only: deduplicate_prefix)
next
  fix pre x post
  show "deduplicate (pre @ [x]) =
      (if \<exists>y \<in> set (deduplicate pre). url_of y = url_of x \<or> id_of y = id_of x
       then deduplicate pre else deduplicate pre @ [x])"
    by (rule deduplicate_snoc)
qed

text \<open>
  A run on three items of which the first two share a url: the urls of the output are
  distinct, the second item is dropped on reaching it, and what is kept up to the first
  item is the start of the output.
\<close>

theorem deduplicate_unique_ordered_witness:
  "distinct (map url_of (deduplicate
      [\<lparr>key_id = Some ''1'', key_source = Some ''hackernews'', key_url = Some ''a'',
         key_date = None, key_traction_score = Some 50\<rparr>,
       \<lparr>key_id = Some ''2'', key_source = Some ''reddit'', key_url = Some ''a'',
         key_date = None, key_traction_score = Some 60\<rparr>,
       \<lparr>key_id = Some ''3'', key_source = Some ''news'', key_url = Some ''c'',
         key_date = None, key_traction_score = Some 70\<rparr>]))
   \<and> deduplicate
      [\<lparr>key_id = Some ''1'', key_source = Some ''hackernews'', key_url = Some ''a'',
         key_date = None, key_traction_score = Some 50\<rparr>,
       \<lparr>key_id = Some ''2'', key_source = Some ''reddit'', key_url = Some ''a'',
         key_date = None, key_traction_score = Some 60\<rparr>]
      = [\<lparr>key_id = Some ''1'', key_source = Some ''hackernews'', key_url = Some ''a'',
         key_date = None, key_traction_score = Some 50\<rparr>]
   \<and> prefix
      [\<lparr>key_id = Some ''1'', key_source = Some ''hackernews'', key_url = Some ''a'',
         key_date = None, key_traction_score = Some 50\<rparr>]
      (deduplicate
      [\<lparr>key_id = Some ''1'', key_source = Some ''hackernews'', key_url = Some ''a'',
         key_date = None, key_traction_score = Some 50\<rparr>,
       \<lparr>key_id = Some ''2'', key_source = Some ''reddit'', key_url = Some ''a'',
         key_date = None, key_traction_score = Some 60\<rparr>,
       \<lparr>key_id = Some ''3'', key_source = Some ''news'', key_url = Some ''c'',
         key_date = None, key_traction_score = Some 70\<rparr>])"
proof -
  let ?A = "\<lparr>key_id = Some ''1'', key_source = Some ''hackernews'', key_url = Some ''a'',
         key_date = None, key_traction_score = Some (50::real)\<rparr>"
  let ?B = "\<lparr>key_id = Some ''2'', key_source = Some ''reddit'', key_url = Some ''a'',
         key_date = None, key_traction_score = Some (60::real)\<rparr>"
  let ?C = "\<lparr>key_id = Some ''3'', key_source = Some ''news'', key_url = Some ''c'',
         key_date = None, key_traction_score = Some (70::real)\<rparr>"
  have pre: "deduplicate [?A] = [?A]"
    by (simp add: deduplicate_def item_get_def)
  have split: "[?A, ?B, ?C] = [?A] @ ?B # [?C]" by simp
  have all: "distinct (map url_of (deduplicate [?A, ?B, ?C]))
    \<and> (\<forall>pre x post. [?A, ?B, ?C] = pre @ x # post \<longrightarrow>
        prefix (deduplicate (pre @ [x])) (deduplicate [?A, ?B, ?C])
        \<and> deduplicate (pre @ [x]) =
            (if \<exists>y \<in> set (deduplicate pre). url_of y = url_of x \<or> id_of y = id_of x
             then deduplicate pre else deduplicate pre @ [x]))"
    using deduplicate_unique_ordered [of "[?A, ?B, ?C]"] by blast
  then have step: "prefix (deduplicate ([?A] @ [?B])) (deduplicate [?A, ?B, ?C])
    \<and> deduplicate ([?A] @ [?B]) =
        (if \<exists>y \<in> set (deduplicate [?A]). url_of y = url_of ?B \<or> id_of y = id_of ?B
         then deduplicate [?A] else deduplicate [?A] @ [?B])"
    using split by blast
  have eq: "deduplicate [?A, ?B] = [?A]"
    using step by (simp add: pre item_get_def)
  from all step eq show ?thesis by simp
qed

text \<open>
  Claim C3, as the specification states it, fails on its last part. In the input below
  the second and the third item collide on the id \<open>2\<close>; the earlier of the two is
  dropped (its url is that of the first item) and the later one is retained.
\<close>

theorem deduplicate_earliest_counterexample:
  "deduplicate
      [\<lparr>key_id = Some ''1'', key_source = Some ''hackernews'', key_url = Some ''a'',
         key_date = None, key_traction_score = Some 50\<rparr>,
       \<lparr>key_id = Some ''2'', key_source = Some ''reddit'', key_url = Some ''a'',
         key_date = None, key_traction_score = Some 60\<rparr>,
       \<lparr>key_id = Some ''2'', key_source = Some ''news'', key_url = Some ''c'',
         key_date = None, key_traction_score = Some 70\<rparr>]
   = [\<lparr>key_id = Some ''1'', key_source = Some ''hackernews'', key_url = Some ''a'',
         key_date = None, key_traction_score = Some 50\<rparr>,
      \<lparr>key_id = Some ''2'', key_source = Some ''news'', key_url = Some ''c'',
         key_date = None, key_traction_score = Some 70\<rparr>]"
  by (simp add: deduplicate_def item_get_def)

subsection \<open>Items without a url\<close>

lemma deduplicate_set_subset: "set (deduplicate items) \<subseteq> set items"
  using deduplicate_subseq [of items] by (auto dest: list_emb_set)

text \<open>
  Claim C10, as the code has it. The empty string is a url like any other, and an absent
  url counts as the empty string: at most one item with an empty or absent url survives
  deduplication, whatever the ids are. The survivor is the first such item of the input
  whenever the id of that item is not the id of an item kept before it.
\<close>

theorem deduplicate_empty_url:
  "length (filter (\<lambda>item. url_of item = []) (deduplicate items)) \<le> 1
   \<and> (\<forall>pre x post.
        items = pre @ x # post \<and> url_of x = []
        \<and> (\<forall>y \<in> set pre. url_of y \<noteq> [])
        \<and> (\<forall>y \<in> set (deduplicate pre). id_of y \<noteq> id_of x) \<longrightarrow>
        filter (\<lambda>item. url_of item = []) (deduplicate items) = [x])"
proof (intro conjI allI impI)
  show one: "length (filter (\<lambda>item. url_of item = []) (deduplicate items)) \<le> 1"
    using deduplicate_distinct_urls by (rule distinct_map_filter_le_one)
  fix pre x post
  assume a: "items = pre @ x # post \<and> url_of x = []
        \<and> (\<forall>y \<in> set pre. url_of y \<noteq> [])
        \<and> (\<forall>y \<in> set (deduplicate pre). id_of y \<noteq> id_of x)"
  have "\<forall>y \<in> set (deduplicate pre). url_of y \<noteq> []"
    using a deduplicate_set_subset [of pre] by blast
  then have "\<not> (\<exists>y \<in> set (deduplicate pre). url_of y = url_of x \<or> id_of y = id_of x)"
    using a by auto
  then have "deduplicate (pre @ [x]) = deduplicate pre @ [x]"
    by (simp only: deduplicate_snoc if_False)
  moreover have "prefix (deduplicate (pre @ [x])) (deduplicate ((pre @ [x]) @ post))"
    by (rule deduplicate_prefix)
  ultimately have "prefix (deduplicate pre @ [x]) (deduplicate items)"
    using a by simp
  then have "x \<in> set (deduplicate items)"
    by (auto simp: prefix_def)
  then have "x \<in> set (filter (\<lambda>item. url_of item = []) (deduplicate items))"
    using a by simp
  with one show "filter (\<lambda>item. url_of item = []) (deduplicate items) = [x]"
    by (rule short_list_with_member)
qed

theorem deduplicate_empty_url_witness:
  "filter (\<lambda>item. url_of item = []) (deduplicate
      [\<lparr>key_id = Some ''1'', key_source = Some ''github'', key_url = Some ''a'',
         key_date = None, key_traction_score = Some 50\<rparr>,
       \<lparr>key_id = Some ''2'', key_source = Some ''github'', key_url = Some [],
         key_date = None, key_traction_score = Some 60\<rparr>,
       \<lparr>key_id = Some ''3'', key_source = Some ''news'', key_url = None,
         key_date = None, key_traction_score = Some 70\<rparr>])
   = [\<lparr>key_id = Some ''2'', key_source = Some ''github'', key_url = Some [],
         key_date = None, key_traction_score = Some 60\<rparr>]"
proof -
  let ?A = "\<lparr>key_id = Some ''1'', key_source = Some ''github'', key_url = Some ''a'',
         key_date = None, key_traction_score = Some (50::real)\<rparr>"
  let ?B = "\<lparr>key_id = Some ''2'', key_source = Some ''github'', key_url = Some [],
         key_date = None, key_traction_score = Some (60::real)\<rparr>"
  let ?C = "\<lparr>key_id = Some ''3'', key_source = Some ''news'', key_url = None,
         key_date = None, key_traction_score = Some (70::real)\<rparr>"
  have pre: "deduplicate [?A] = [?A]"
    by (simp add: deduplicate_def item_get_def)
  have hyp: "[?A, ?B, ?C] = [?A] @ ?B # [?C] \<and> url_of ?B = []
      \<and> (\<forall>y \<in> set [?A]. url_of y \<noteq> [])
      \<and> (\<forall>y \<in> set (deduplicate [?A]). id_of y \<noteq> id_of ?B)"
    by (simp add: pre item_get_def)
  show ?thesis
    using deduplicate_empty_url [of "[?A, ?B, ?C]"] hyp by blast
qed

text \<open>
  Claim C10, as stated, fails. Below, the second and the third item have no url (an empty
  one, an absent one) and distinct ids. The first of the two is dropped, its id being
  that of the item before it, and the second of the two survives.
\<close>

theorem deduplicate_empty_url_counterexample:
  "deduplicate
      [\<lparr>key_id = Some ''1'', key_source = Some ''github'', key_url = Some ''a'',
         key_date = None, key_traction_score = Some 50\<rparr>,
       \<lparr>key_id = Some ''1'', key_source = Some ''github'', key_url = Some [],
         key_date = None, key_traction_score = Some 60\<rparr>,
       \<lparr>key_id = Some ''3'', key_source = Some ''news'', key_url = None,
         key_date = None, key_traction_score = Some 70\<rparr>]
   = [\<lparr>key_id = Some ''1'', key_source = Some ''github'', key_url = Some ''a'',
         key_date = None, key_traction_score = Some 50\<rparr>,
      \<lparr>key_id = Some ''3'', key_source = Some ''news'', key_url = None,
         key_date = None, key_traction_score = Some 70\<rparr>]"
  by (simp add: deduplicate_def item_get_def)

section \<open>Properties of the ranking step\<close>

subsection \<open>The descending stable sort\<close>

lemma sort_reverse_sorted: "sorted_wrt (\<lambda>a b. b \<le> a) (map key (sort_reverse key xs))"
proof -
  have "sorted (map key (sort_key key (rev xs)))"
    by (rule sorted_sort_key)
  then have "sorted_wrt (\<lambda>a b. b \<le> a) (rev (map key (sort_key key (rev xs))))"
    by (simp add: sorted_wrt_rev)
  then show ?thesis
    by (simp add: sort_reverse_def rev_map)
qed

lemma sort_reverse_stable:
  "filter (\<lambda>x. key x = k) (sort_reverse key xs) = filter (\<lambda>x. key x = k) xs"
proof -
  have "filter (\<lambda>x. key x = k) (sort_key key (rev xs)) = filter (\<lambda>x. key x = k) (rev xs)"
    by (rule sort_key_stable)
  then have "rev (filter (\<lambda>x. key x = k) (sort_key key (rev xs)))
      = rev (filter (\<lambda>x. key x = k) (rev xs))"
    by simp
  then show ?thesis
    by (simp add: sort_reverse_def rev_filter)
qed

lemma sort_reverse_mset: "mset (sort_reverse key xs) = mset xs"
  by (simp add: sort_reverse_def)

lemma main_rank_discarded:
  "main_rank all_items @ main_discarded all_items
     = sort_reverse score_key (deduplicate all_items)"
  by (simp add: main_rank_def main_discarded_def)

text \<open>
  Claim C4. The ranked list is in non-increasing order of the traction score and has at
  most 200 items. The sort is stable: for every score, the items with that score appear
  in the sorted list in the order they have in the deduplicated list. The truncation
  comes after the sort: the ranked list followed by the discarded items is the whole
  sorted list, a rearrangement of the deduplicated list, so every retained item has a
  score greater than or equal to that of every discarded item.
\<close>

theorem main_rank_sorted_stable_truncated:
  "sorted_wrt (\<lambda>a b. b \<le> a) (map score_key (main_rank all_items))
   \<and> length (main_rank all_items) = min 200 (length (deduplicate all_items))
   \<and> mset (main_rank all_items @ main_discarded all_items) = mset (deduplicate all_items)
   \<and> (\<forall>k. filter (\<lambda>x. score_key x = k) (main_rank all_items @ main_discarded all_items)
           = filter (\<lambda>x. score_key x = k) (deduplicate all_items))
   \<and> (\<forall>x \<in> set (main_rank all_items). \<forall>y \<in> set (main_discarded all_items).
         score_key y \<le> score_key x)"
proof (intro conjI allI ballI)
  let ?sorted = "sort_reverse score_key (deduplicate all_items)"
  have s: "sorted_wrt (\<lambda>a b. b \<le> a) (map score_key ?sorted)"
    by (rule sort_reverse_sorted)
  then have "sorted_wrt (\<lambda>a b. b \<le> a) (take MAX_TOTAL_ITEMS (map score_key ?sorted))"
    by (rule sorted_wrt_take)
  then show "sorted_wrt (\<lambda>a b. b \<le> a) (map score_key (main_rank all_items))"
    by (simp add: main_rank_def take_map)
  have "length ?sorted = length (deduplicate all_items)"
    using sort_reverse_mset [of score_key "deduplicate all_items"] by (rule mset_eq_length)
  then show "length (main_rank all_items) = min 200 (length (deduplicate all_items))"
    by (simp add: main_rank_def MAX_TOTAL_ITEMS_def)
  show "mset (main_rank all_items @ main_discarded all_items) = mset (deduplicate all_items)"
    by (simp only: main_rank_discarded sort_reverse_mset)
  show "filter (\<lambda>x. score_key x = k) (main_rank all_items @ main_discarded all_items)
      = filter (\<lambda>x. score_key x = k) (deduplicate all_items)" for k
    by (simp only: main_rank_discarded sort_reverse_stable)
  have "sorted_wrt (\<lambda>a b. b \<le> a)
      (map score_key (main_rank all_items) @ map score_key (main_discarded all_items))"
    using s by (simp only: main_rank_discarded [symmetric] map_append)
  then have "\<forall>a \<in> set (map score_key (main_rank all_items)).
      \<forall>b \<in> set (map score_key (main_discarded all_items)). b \<le> a"
    by (simp only: sorted_wrt_append) blast
  then show "score_key y \<le> score_key x"
    if "x \<in> set (main_rank all_items)" "y \<in> set (main_discarded all_items)" for x y
    using that by simp
qed

text \<open>A list whose urls and ids are already distinct is returned unchanged.\<close>

lemma deduplicate_distinct_unchanged:
  "distinct (map url_of items) \<Longrightarrow> distinct (map id_of items) \<Longrightarrow> deduplicate items = items"
proof (induction items rule: rev_induct)
  case Nil
  then show ?case by (simp add: deduplicate_def)
next
  case (snoc x xs)
  then have "deduplicate xs = xs" by simp
  moreover have "\<not> (\<exists>y \<in> set xs. url_of y = url_of x \<or> id_of y = id_of x)"
    using snoc.prems by (auto simp: image_iff)
  ultimately show ?case
    by (simp only: deduplicate_snoc if_False)
qed

text \<open>
  An input of 201 items with distinct urls and ids, the item number \<open>n\<close> having the
  score \<open>n\<close>: 200 items are retained and one is discarded.
\<close>

theorem main_rank_sorted_stable_truncated_witness:
  "length (main_rank (map (\<lambda>n. \<lparr>key_id = Some (replicate n CHR ''i''),
       key_source = Some ''news'', key_url = Some (replicate n CHR ''u''),
       key_date = None, key_traction_score = Some (real n)\<rparr>) [0..<201])) = 200
   \<and> length (main_discarded (map (\<lambda>n. \<lparr>key_id = Some (replicate n CHR ''i''),
       key_source = Some ''news'', key_url = Some (replicate n CHR ''u''),
       key_date = None, key_traction_score = Some (real n)\<rparr>) [0..<201])) = 1
   \<and> list_all (\<lambda>x. list_all (\<lambda>y. score_key y \<le> score_key x)
         (main_discarded (map (\<lambda>n. \<lparr>key_id = Some (replicate n CHR ''i''),
       key_source = Some ''news'', key_url = Some (replicate n CHR ''u''),
       key_date = None, key_traction_score = Some (real n)\<rparr>) [0..<201])))
       (main_rank (map (\<lambda>n. \<lparr>key_id = Some (replicate n CHR ''i''),
       key_source = Some ''news'', key_url = Some (replicate n CHR ''u''),
       key_date = None, key_traction_score = Some (real n)\<rparr>) [0..<201]))"
proof -
  let ?mk = "\<lambda>n. \<lparr>key_id = Some (replicate n CHR ''i''),
       key_source = Some ''news'', key_url = Some (replicate n CHR ''u''),
       key_date = None, key_traction_score = Some (real n)\<rparr>"
  let ?items = "map ?mk [0..<201]"
  have inj: "inj_on (\<lambda>n. replicate n c) A" for c :: char and A
  proof (rule inj_onI)
    fix m n :: nat
    assume "replicate m c = replicate n c"
    then have "length (replicate m c) = length (replicate n c)" by simp
    then show "m = n" by simp
  qed
  have "distinct (map url_of ?items)"
    by (simp add: item_get_def comp_def distinct_map inj)
  moreover have "distinct (map id_of ?items)"
    by (simp add: item_get_def comp_def distinct_map inj)
  ultimately have d: "deduplicate ?items = ?items"
    by (rule deduplicate_distinct_unchanged)
  have len: "length (deduplicate ?items) = 201"
    by (simp only: d) simp
  note t = main_rank_sorted_stable_truncated [of ?items]
  have r: "length (main_rank ?items) = 200"
    using t len by simp
  have "size (mset (main_rank ?items @ main_discarded ?items)) = 201"
    using t len by simp
  then have "length (main_rank ?items) + length (main_discarded ?items) = 201"
    by simp
  with r have "length (main_discarded ?items) = 1" by simp
  with r t show ?thesis by (simp only: list_all_iff) blast
qed

text \<open>A run on three items: the second is a duplicate, the other two change places.\<close>

lemma main_rank_example:
  "main_rank
      [\<lparr>key_id = Some ''1'', key_source = Some ''hackernews'', key_url = Some ''a'',
         key_date = None, key_traction_score = Some 50\<rparr>,
       \<lparr>key_id = Some ''2'', key_source = Some ''reddit'', key_url = Some ''a'',
         key_date = None, key_traction_score = Some 60\<rparr>,
       \<lparr>key_id = Some ''3'', key_source = Some ''news'', key_url = Some ''c'',
         key_date = None, key_traction_score = Some 70\<rparr>]
   = [\<lparr>key_id = Some ''3'', key_source = Some ''news'', key_url = Some ''c'',
         key_date = None, key_traction_score = Some 70\<rparr>,
      \<lparr>key_id = Some ''1'', key_source = Some ''hackernews'', key_url = Some ''a'',
         key_date = None, key_traction_score = Some 50\<rparr>]"
  by (simp add: main_rank_def MAX_TOTAL_ITEMS_def sort_reverse_def score_key_def
        deduplicate_def item_get_def)

section \<open>Properties of the score statistics\<close>

lemma py_max_eq_Max: "scores \<noteq> [] \<Longrightarrow> py_max scores = Inr (Max (set scores))"
proof (cases scores)
  case Nil
  assume "scores \<noteq> []"
  with Nil show ?thesis by simp
next
  case (Cons x xs)
  have "Max (set (x # xs)) = fold max xs x" by (rule Max.set_eq_fold)
  with Cons show ?thesis by simp
qed

lemma percentile_index_less:
  fixes p :: real
  assumes "0 < n" and "0 \<le> p" and "p < 1"
  shows "nat \<lfloor>real n * p\<rfloor> < n"
proof -
  have "real n * p < real n" using assms by simp
  then have "\<lfloor>real n * p\<rfloor> < int n" by (simp add: floor_less_iff)
  then show ?thesis using assms(1) by linarith
qed

lemma percentile_index_mono:
  fixes p q :: real
  assumes "p \<le> q"
  shows "nat \<lfloor>real n * p\<rfloor> \<le> nat \<lfloor>real n * q\<rfloor>"
proof -
  have "real n * p \<le> real n * q" using assms by (simp add: mult_left_mono)
  then have "\<lfloor>real n * p\<rfloor> \<le> \<lfloor>real n * q\<rfloor>" by (rule floor_mono)
  then show ?thesis by simp
qed

lemma percentile_value:
  fixes p :: real
  assumes "scores \<noteq> []" and "0 \<le> p" and "p < 1"
  shows "percentile scores p = Inr (sort scores ! nat \<lfloor>real (length scores) * p\<rfloor>)"
proof -
  have "nat \<lfloor>real (length scores) * p\<rfloor> < length scores"
    using assms by (intro percentile_index_less) simp_all
  then show ?thesis by (simp add: percentile_def py_index_def)
qed

lemma sort_nth_le_Max:
  fixes scores :: "real list"
  assumes "i < length scores"
  shows "sort scores ! i \<le> Max (set scores)"
proof -
  have "sort scores ! i \<in> set (sort scores)"
    using assms by (intro nth_mem) simp
  then have "sort scores ! i \<in> set scores" by simp
  then show ?thesis by simp
qed

text \<open>
  Claim C5. The statistics are taken from the scores of the list handed over, which in
  \<^verbatim>\<open>main\<close> is the truncated ranked list. For an empty list all three are 0. For a list
  of \<open>n > 0\<close> items no index is out of range: the maximum is the greatest score, the two
  percentiles are the entries of the ascending sorted scores at the indices
  \<open>\<lfloor>n * 0.75\<rfloor>\<close> and \<open>\<lfloor>n * 0.90\<rfloor>\<close>, with no interpolation, and
  \<open>p75 \<le> p90 \<le> max\<close>.
\<close>

theorem main_stats_percentiles:
  "(ranked = [] \<longrightarrow>
      main_stats ranked = Inr \<lparr>key_max_score = 0, key_p90_score = 0, key_p75_score = 0\<rparr>)
   \<and> (ranked \<noteq> [] \<longrightarrow>
        (\<exists>stats. main_stats ranked = Inr stats
           \<and> key_max_score stats = Max (set (map score_key ranked))
           \<and> key_p75_score stats
               = sort (map score_key ranked) ! nat \<lfloor>real (length ranked) * 0.75\<rfloor>
           \<and> key_p90_score stats
               = sort (map score_key ranked) ! nat \<lfloor>real (length ranked) * 0.90\<rfloor>
           \<and> key_p75_score stats \<le> key_p90_score stats
           \<and> key_p90_score stats \<le> key_max_score stats))"
proof (intro conjI impI)
  assume "ranked = []"
  then show "main_stats ranked
      = Inr \<lparr>key_max_score = 0, key_p90_score = 0, key_p75_score = 0\<rparr>"
    by (simp add: main_stats_def)
next
  assume ne: "ranked \<noteq> []"
  let ?scores = "map score_key ranked"
  let ?i75 = "nat \<lfloor>real (length ranked) * 0.75\<rfloor>"
  let ?i90 = "nat \<lfloor>real (length ranked) * 0.90\<rfloor>"
  have sne: "?scores \<noteq> []" using ne by simp
  have m: "py_max ?scores = Inr (Max (set ?scores))"
    using sne by (rule py_max_eq_Max)
  have p75: "percentile ?scores 0.75 = Inr (sort ?scores ! ?i75)"
    using percentile_value [OF sne, of "0.75"] by simp
  have p90: "percentile ?scores 0.90 = Inr (sort ?scores ! ?i90)"
    using percentile_value [OF sne, of "0.90"] by simp
  have i90: "?i90 < length ?scores"
    using percentile_index_less [of "length ranked" "0.90"] ne by simp
  have "?i75 \<le> ?i90"
    by (rule percentile_index_mono) simp
  moreover have "sorted (sort ?scores)" by simp
  ultimately have le1: "sort ?scores ! ?i75 \<le> sort ?scores ! ?i90"
    using i90 by (intro sorted_nth_mono) simp_all
  have le2: "sort ?scores ! ?i90 \<le> Max (set ?scores)"
    using i90 by (rule sort_nth_le_Max)
  have "main_stats ranked = Inr \<lparr>key_max_score = Max (set ?scores),
      key_p90_score = sort ?scores ! ?i90, key_p75_score = sort ?scores ! ?i75\<rparr>"
    using sne by (simp only: main_stats_def Let_def m p75 p90) simp
  with le1 le2 show "\<exists>stats. main_stats ranked = Inr stats
           \<and> key_max_score stats = Max (set ?scores)
           \<and> key_p75_score stats = sort ?scores ! ?i75
           \<and> key_p90_score stats = sort ?scores ! ?i90
           \<and> key_p75_score stats \<le> key_p90_score stats
           \<and> key_p90_score stats \<le> key_max_score stats"
    by simp
qed

text \<open>
  The statistics of the ranked list of the three-item run: the sorted scores are 50 and
  70, both indices are 1, so all three statistics are 70. The empty run gives zeros.
\<close>

theorem main_stats_percentiles_witness:
  "main_stats (main_rank ([] :: item list))
     = Inr \<lparr>key_max_score = 0, key_p90_score = 0, key_p75_score = 0\<rparr>
   \<and> (\<exists>stats. main_stats
        [\<lparr>key_id = Some ''3'', key_source = Some ''news'', key_url = Some ''c'',
           key_date = None, key_traction_score = Some 70\<rparr>,
         \<lparr>key_id = Some ''1'', key_source = Some ''hackernews'', key_url = Some ''a'',
           key_date = None, key_traction_score = Some 50\<rparr>] = Inr stats
      \<and> key_max_score stats = 70 \<and> key_p90_score stats = 70 \<and> key_p75_score stats = 70)"
proof -
  let ?C = "\<lparr>key_id = Some ''3'', key_source = Some ''news'', key_url = Some ''c'',
           key_date = None, key_traction_score = Some (70::real)\<rparr>"
  let ?A = "\<lparr>key_id = Some ''1'', key_source = Some ''hackernews'', key_url = Some ''a'',
           key_date = None, key_traction_score = Some (50::real)\<rparr>"
  have e: "main_rank ([] :: item list) = []"
    by (simp add: main_rank_def sort_reverse_def deduplicate_def)
  have empty: "main_stats (main_rank ([] :: item list))
     = Inr \<lparr>key_max_score = 0, key_p90_score = 0, key_p75_score = 0\<rparr>"
    using main_stats_percentiles [of "main_rank ([] :: item list)"] e by simp
  have i: "nat \<lfloor>real (length [?C, ?A]) * 0.75\<rfloor> = 1"
    "nat \<lfloor>real (length [?C, ?A]) * 0.90\<rfloor> = 1"
    by simp_all
  have s: "sort (map score_key [?C, ?A]) = [50, 70]"
    by (simp add: score_key_def item_get_def)
  have mx: "Max (set (map score_key [?C, ?A])) = 70"
    by (simp add: score_key_def item_get_def)
  have "\<exists>stats. main_stats [?C, ?A] = Inr stats
      \<and> key_max_score stats = 70 \<and> key_p90_score stats = 70 \<and> key_p75_score stats = 70"
    using main_stats_percentiles [of "[?C, ?A]"]
    by (simp only: i s mx) auto
  with empty show ?thesis by blast
qed

section \<open>Properties of the date parser\<close>

lemma parse_date_loop_all_fail:
  "\<forall>fmt \<in> set fmts. strptime lib (strip date_str) fmt = Inl ValueError \<Longrightarrow>
     parse_date_loop lib date_str fmts = Inr (now_iso lib)"
  by (induction fmts) simp_all

lemma parse_date_loop_skip:
  "\<forall>fmt \<in> set tried. strptime lib (strip date_str) fmt = Inl ValueError \<Longrightarrow>
     parse_date_loop lib date_str (tried @ rest) = parse_date_loop lib date_str rest"
  by (induction tried) simp_all

lemma parse_date_loop_returns:
  "\<forall>fmt \<in> set fmts. \<forall>e. strptime lib (strip date_str) fmt = Inl e \<longrightarrow> e = ValueError \<Longrightarrow>
     \<exists>iso. parse_date_loop lib date_str fmts = Inr iso"
proof (induction fmts)
  case Nil
  then show ?case by simp
next
  case (Cons fmt fmts)
  show ?case
  proof (cases "strptime lib (strip date_str) fmt")
    case (Inl e)
    then have "e = ValueError" using Cons.prems by simp
    with Inl Cons show ?thesis by simp
  next
    case (Inr dt)
    then show ?thesis by simp
  qed
qed

lemma news_score_returns:
  "\<exists>traction. compute_traction_score_default ''news'' 0 0 age_h = Inr traction"
  by (simp add: compute_traction_score_default_def compute_traction_score_valid)

text \<open>
  The item of a feed entry whose date string \<^verbatim>\<open>parse_date\<close> turns into \<open>iso_date\<close>:
  every key is determined by the entry, the date and the score of the age of that date.
\<close>

lemma rss_item_date:
  assumes "parse_date lib (item_get (entry_published entry)
      (item_get (entry_updated entry) [])) = Inr iso_date"
  shows "\<exists>traction.
      compute_traction_score_default ''news'' 0 0 (hours_ago lib iso_date) = Inr traction
      \<and> rss_item lib make_id entry rest =
          Inr \<lparr>key_id = Some (make_id ''news'' (item_get (entry_link entry) [])),
               key_source = Some ''news'',
               key_url = Some (item_get (entry_link entry) []),
               key_date = Some iso_date,
               key_traction_score = Some traction,
               \<dots> = rest\<rparr>"
proof -
  obtain traction where
    "compute_traction_score_default ''news'' 0 0 (hours_ago lib iso_date) = Inr traction"
    using news_score_returns by blast
  then show ?thesis
    using assms by (simp add: rss_item_def Let_def)
qed

text \<open>
  Claim C8. \<^verbatim>\<open>parse_date\<close> tries the six formats in their order on the stripped
  string. With \<^verbatim>\<open>datetime.strptime\<close> raising nothing but ValueError on a mismatch, it
  returns a string for every input and never raises. The first format that parses decides
  the result. If the string is empty or no format parses it, the result is the clock's
  reading, and the feed entry with that date string becomes the item of that entry with
  the clock's reading as its date and the score of the age of that reading: the item is
  built from the entry, not dropped, and nothing is raised.
\<close>

theorem parse_date_falls_back_to_now:
  "((\<forall>fmt \<in> set DATE_FORMATS. \<forall>e.
        strptime lib (strip date_str) fmt = Inl e \<longrightarrow> e = ValueError) \<longrightarrow>
      (\<exists>iso. parse_date lib date_str = Inr iso))
   \<and> (\<forall>tried fmt untried dt.
        date_str \<noteq> [] \<and> DATE_FORMATS = tried @ fmt # untried
        \<and> (\<forall>f \<in> set tried. strptime lib (strip date_str) f = Inl ValueError)
        \<and> strptime lib (strip date_str) fmt = Inr dt \<longrightarrow>
        parse_date lib date_str = Inr (isoformat lib (ensure_utc lib dt)))
   \<and> (date_str = []
        \<or> (\<forall>fmt \<in> set DATE_FORMATS. strptime lib (strip date_str) fmt = Inl ValueError) \<longrightarrow>
        parse_date lib date_str = Inr (now_iso lib)
        \<and> (\<forall>make_id entry rest.
              item_get (entry_published entry) (item_get (entry_updated entry) []) = date_str
              \<longrightarrow> (\<exists>traction.
                     compute_traction_score_default ''news'' 0 0
                       (hours_ago lib (now_iso lib)) = Inr traction
                     \<and> rss_item lib make_id entry rest =
                         Inr \<lparr>key_id = Some (make_id ''news''
                                 (item_get (entry_link entry) [])),
                              key_source = Some ''news'',
                              key_url = Some (item_get (entry_link entry) []),
                              key_date = Some (now_iso lib),
                              key_traction_score = Some traction,
                              \<dots> = rest\<rparr>)))"
proof (intro conjI allI impI)
  assume "\<forall>fmt \<in> set DATE_FORMATS. \<forall>e.
      strptime lib (strip date_str) fmt = Inl e \<longrightarrow> e = ValueError"
  then have "\<exists>iso. parse_date_loop lib date_str DATE_FORMATS = Inr iso"
    by (rule parse_date_loop_returns)
  then show "\<exists>iso. parse_date lib date_str = Inr iso"
    by (simp add: parse_date_def)
next
  fix tried fmt untried dt
  assume a: "date_str \<noteq> [] \<and> DATE_FORMATS = tried @ fmt # untried
      \<and> (\<forall>f \<in> set tried. strptime lib (strip date_str) f = Inl ValueError)
      \<and> strptime lib (strip date_str) fmt = Inr dt"
  then have "parse_date_loop lib date_str (tried @ fmt # untried)
      = parse_date_loop lib date_str (fmt # untried)"
    by (intro parse_date_loop_skip) simp
  then show "parse_date lib date_str = Inr (isoformat lib (ensure_utc lib dt))"
    using a by (simp add: parse_date_def)
next
  assume a: "date_str = []
      \<or> (\<forall>fmt \<in> set DATE_FORMATS. strptime lib (strip date_str) fmt = Inl ValueError)"
  show now: "parse_date lib date_str = Inr (now_iso lib)"
  proof (cases "date_str = []")
    case True
    then show ?thesis by (simp add: parse_date_def)
  next
    case False
    with a have "parse_date_loop lib date_str DATE_FORMATS = Inr (now_iso lib)"
      by (intro parse_date_loop_all_fail) simp
    with False show ?thesis by (simp add: parse_date_def)
  qed
  fix make_id :: "string \<Rightarrow> string \<Rightarrow> string" and entry :: rss_entry and rest :: 'b
  assume "item_get (entry_published entry) (item_get (entry_updated entry) []) = date_str"
  with now have "parse_date lib (item_get (entry_published entry)
      (item_get (entry_updated entry) [])) = Inr (now_iso lib)"
    by simp
  then show "\<exists>traction.
      compute_traction_score_default ''news'' 0 0 (hours_ago lib (now_iso lib)) = Inr traction
      \<and> rss_item lib make_id entry rest =
          Inr \<lparr>key_id = Some (make_id ''news'' (item_get (entry_link entry) [])),
               key_source = Some ''news'',
               key_url = Some (item_get (entry_link entry) []),
               key_date = Some (now_iso lib),
               key_traction_score = Some traction,
               \<dots> = rest\<rparr>"
    by (rule rss_item_date)
qed

text \<open>
  A library that parses only \<open>20260101\<close>, with the last format, and a clock that reads
  \<open>2026-11-04T09:00:00+00:00\<close>, so that the age of the clock's reading is 0 hours. A
  string that no format parses gives the clock's reading, and its feed entry gives the
  item with that date and the score 33.25 of a fresh news item. The string \<open>20260101\<close>
  between a no-break space and a next-line character and a blank is stripped and parsed.
\<close>

theorem parse_date_falls_back_to_now_witness:
  "parse_date
      \<lparr>strptime = (\<lambda>s fmt. if s = ''20260101'' \<and> fmt = ''%Y%m%d''
                                then Inr (0::nat) else Inl ValueError),
       fromisoformat = (\<lambda>s. Inr 0),
       tzinfo_is_none = (\<lambda>dt. True),
       replace_tzinfo_utc = (\<lambda>dt. dt),
       isoformat = (\<lambda>dt. ''2026-01-01T00:00:00+00:00''),
       hours_before_now = (\<lambda>dt. 0),
       now_iso = ''2026-11-04T09:00:00+00:00''\<rparr>
      ''next week'' = Inr ''2026-11-04T09:00:00+00:00''
   \<and> parse_date
      \<lparr>strptime = (\<lambda>s fmt. if s = ''20260101'' \<and> fmt = ''%Y%m%d''
                                then Inr (0::nat) else Inl ValueError),
       fromisoformat = (\<lambda>s. Inr 0),
       tzinfo_is_none = (\<lambda>dt. True),
       replace_tzinfo_utc = (\<lambda>dt. dt),
       isoformat = (\<lambda>dt. ''2026-01-01T00:00:00+00:00''),
       hours_before_now = (\<lambda>dt. 0),
       now_iso = ''2026-11-04T09:00:00+00:00''\<rparr>
      (CHR 0xA0 # ''20260101'' @ [CHR 0x85, CHR '' ''])
       = Inr ''2026-01-01T00:00:00+00:00''
   \<and> rss_item
      \<lparr>strptime = (\<lambda>s fmt. if s = ''20260101'' \<and> fmt = ''%Y%m%d''
                                then Inr (0::nat) else Inl ValueError),
       fromisoformat = (\<lambda>s. Inr 0),
       tzinfo_is_none = (\<lambda>dt. True),
       replace_tzinfo_utc = (\<lambda>dt. dt),
       isoformat = (\<lambda>dt. ''2026-01-01T00:00:00+00:00''),
       hours_before_now = (\<lambda>dt. 0),
       now_iso = ''2026-11-04T09:00:00+00:00''\<rparr>
      (\<lambda>source key. source @ '':'' @ key)
      \<lparr>entry_link = Some ''https://x.test/a'', entry_published = Some ''next week'',
        entry_updated = None\<rparr> ()
     = Inr \<lparr>key_id = Some ''news:https://x.test/a'', key_source = Some ''news'',
            key_url = Some ''https://x.test/a'',
            key_date = Some ''2026-11-04T09:00:00+00:00'',
            key_traction_score = Some 33.25\<rparr>"
proof -
  let ?lib = "\<lparr>strptime = (\<lambda>s fmt. if s = ''20260101'' \<and> fmt = ''%Y%m%d''
                                then Inr (0::nat) else Inl ValueError),
       fromisoformat = (\<lambda>s. Inr 0),
       tzinfo_is_none = (\<lambda>dt. True),
       replace_tzinfo_utc = (\<lambda>dt. dt),
       isoformat = (\<lambda>dt. ''2026-01-01T00:00:00+00:00''),
       hours_before_now = (\<lambda>dt. 0),
       now_iso = ''2026-11-04T09:00:00+00:00''\<rparr>"
  let ?entry = "\<lparr>entry_link = Some ''https://x.test/a'',
       entry_published = Some ''next week'', entry_updated = None\<rparr>"
  let ?padded = "CHR 0xA0 # ''20260101'' @ [CHR 0x85, CHR '' '']"
  have s1: "strip ''next week'' = ''next week''"
    by (simp add: strip_def is_space_def)
  have s2: "strip ?padded = ''20260101''"
    by (simp add: strip_def is_space_def)
  have fail: "\<forall>fmt \<in> set DATE_FORMATS. strptime ?lib (strip ''next week'') fmt = Inl ValueError"
    by (simp add: s1)
  have pub: "item_get (entry_published ?entry) (item_get (entry_updated ?entry) [])
      = ''next week''"
    by (simp add: item_get_def)
  have split: "?padded \<noteq> [] \<and> DATE_FORMATS =
      [''%a, %d %b %Y %H:%M:%S %z'', ''%Y-%m-%dT%H:%M:%S%z'', ''%Y-%m-%dT%H:%M:%SZ'',
       ''%Y-%m-%dT%H:%M:%S.%f%z'', ''%Y-%m-%d %H:%M:%S''] @ ''%Y%m%d'' # []
      \<and> (\<forall>f \<in> set [''%a, %d %b %Y %H:%M:%S %z'', ''%Y-%m-%dT%H:%M:%S%z'',
            ''%Y-%m-%dT%H:%M:%SZ'', ''%Y-%m-%dT%H:%M:%S.%f%z'', ''%Y-%m-%d %H:%M:%S''].
            strptime ?lib (strip ?padded) f = Inl ValueError)
      \<and> strptime ?lib (strip ?padded) ''%Y%m%d'' = Inr 0"
    by (simp only: s2) (simp add: DATE_FORMATS_def)
  note fallback = parse_date_falls_back_to_now [of ?lib "''next week''",
      THEN conjunct2, THEN conjunct2, THEN mp, OF disjI2, OF fail]
  have a: "parse_date ?lib ''next week'' = Inr (now_iso ?lib)"
    by (rule fallback [THEN conjunct1])
  have b: "parse_date ?lib ?padded = Inr (isoformat ?lib (ensure_utc ?lib 0))"
    by (rule parse_date_falls_back_to_now [of ?lib ?padded,
          THEN conjunct2, THEN conjunct1, THEN spec, THEN spec, THEN spec, THEN spec,
          THEN mp, OF split])
  have "py_round (of_int 3325 / 100) 2 = 33.25"
    by (simp add: py_round_def round_half_even_def)
  then have score: "compute_traction_score_default ''news'' 0 0 (hours_ago ?lib (now_iso ?lib))
      = Inr 33.25"
    by (simp add: hours_ago_def ensure_utc_def compute_traction_score_default_def
          compute_traction_score_valid dict_get_def SOURCE_WEIGHTS_def)
  have "\<exists>traction.
      compute_traction_score_default ''news'' 0 0 (hours_ago ?lib (now_iso ?lib)) = Inr traction
      \<and> rss_item ?lib (\<lambda>source key. source @ '':'' @ key) ?entry () =
          Inr \<lparr>key_id = Some ((\<lambda>source key. source @ '':'' @ key) ''news''
                   (item_get (entry_link ?entry) [])),
               key_source = Some ''news'',
               key_url = Some (item_get (entry_link ?entry) []),
               key_date = Some (now_iso ?lib),
               key_traction_score = Some traction\<rparr>"
    by (rule fallback [THEN conjunct2, THEN spec, THEN spec, THEN spec, THEN mp, OF pub])
  then obtain traction where t:
    "compute_traction_score_default ''news'' 0 0 (hours_ago ?lib (now_iso ?lib)) = Inr traction
      \<and> rss_item ?lib (\<lambda>source key. source @ '':'' @ key) ?entry () =
          Inr \<lparr>key_id = Some ((\<lambda>source key. source @ '':'' @ key) ''news''
                   (item_get (entry_link ?entry) [])),
               key_source = Some ''news'',
               key_url = Some (item_get (entry_link ?entry) []),
               key_date = Some (now_iso ?lib),
               key_traction_score = Some traction\<rparr>" ..
  note t1 = t [THEN conjunct1] and t2 = t [THEN conjunct2]
  from t1 have "traction = 33.25" by (simp only: score sum.inject)
  then have c: "rss_item ?lib (\<lambda>source key. source @ '':'' @ key) ?entry () =
      Inr \<lparr>key_id = Some ''news:https://x.test/a'', key_source = Some ''news'',
            key_url = Some ''https://x.test/a'',
            key_date = Some ''2026-11-04T09:00:00+00:00'',
            key_traction_score = Some 33.25\<rparr>"
    by (simp only: t2) (simp add: item_get_def)
  have n: "now_iso ?lib = ''2026-11-04T09:00:00+00:00''"
    and i: "isoformat ?lib (ensure_utc ?lib 0) = ''2026-01-01T00:00:00+00:00''"
    by simp_all
  from a b c show ?thesis unfolding n i by (intro conjI)
qed

end
